theory Spec2Isabelle
  imports Complex_Main
begin

section \<open>JavaScript values: numbers and \<open>undefined\<close>\<close>

text \<open>
  The indicator code of \<open>src/App.js\<close> works on JavaScript numbers and reads array
  positions that may be absent. A value is \<open>undefined\<close>, the not-a-number sentinel, one
  of the two infinities, or a finite number. Finite numbers are exact rationals: rounding
  and signed zero are outside this model (zero is the positive zero), everything else
  follows ECMAScript's rules for the operator. \<open>undefined\<close> converts to NaN wherever a
  number is needed.
\<close>

datatype jsval = Undefined | NaN | PInf | NInf | Fin rat

fun isNaN :: "jsval \<Rightarrow> bool" where
  "isNaN Undefined = True"
| "isNaN NaN = True"
| "isNaN _ = False"

fun jneg :: "jsval \<Rightarrow> jsval" where
  "jneg (Fin a) = Fin (- a)"
| "jneg PInf = NInf"
| "jneg NInf = PInf"
| "jneg _ = NaN"

fun jadd :: "jsval \<Rightarrow> jsval \<Rightarrow> jsval" where
  "jadd (Fin a) (Fin b) = Fin (a + b)"
| "jadd (Fin a) PInf = PInf"
| "jadd (Fin a) NInf = NInf"
| "jadd PInf (Fin b) = PInf"
| "jadd NInf (Fin b) = NInf"
| "jadd PInf PInf = PInf"
| "jadd NInf NInf = NInf"
| "jadd _ _ = NaN"

definition jsub :: "jsval \<Rightarrow> jsval \<Rightarrow> jsval" where
  "jsub a b = jadd a (jneg b)"

fun jsign :: "rat \<Rightarrow> jsval \<Rightarrow> jsval" where
  "jsign a PInf = (if a = 0 then NaN else if 0 < a then PInf else NInf)"
| "jsign a NInf = (if a = 0 then NaN else if 0 < a then NInf else PInf)"
| "jsign a _ = NaN"

fun jmul :: "jsval \<Rightarrow> jsval \<Rightarrow> jsval" where
  "jmul (Fin a) (Fin b) = Fin (a * b)"
| "jmul (Fin a) PInf = jsign a PInf"
| "jmul (Fin a) NInf = jsign a NInf"
| "jmul PInf (Fin b) = jsign b PInf"
| "jmul NInf (Fin b) = jsign b NInf"
| "jmul PInf PInf = PInf"
| "jmul NInf NInf = PInf"
| "jmul PInf NInf = NInf"
| "jmul NInf PInf = NInf"
| "jmul _ _ = NaN"

fun jdiv :: "jsval \<Rightarrow> jsval \<Rightarrow> jsval" where
  "jdiv (Fin a) (Fin b) =
     (if b = 0 then (if a = 0 then NaN else if 0 < a then PInf else NInf)
      else Fin (a / b))"
| "jdiv (Fin a) PInf = Fin 0"
| "jdiv (Fin a) NInf = Fin 0"
| "jdiv PInf (Fin b) = (if 0 \<le> b then PInf else NInf)"
| "jdiv NInf (Fin b) = (if 0 \<le> b then NInf else PInf)"
| "jdiv _ _ = NaN"

fun jabs :: "jsval \<Rightarrow> jsval" where
  "jabs (Fin a) = Fin \<bar>a\<bar>"
| "jabs PInf = PInf"
| "jabs NInf = PInf"
| "jabs _ = NaN"

text \<open>The relational operators; every comparison with NaN (or \<open>undefined\<close>) is false.\<close>

fun jlt :: "jsval \<Rightarrow> jsval \<Rightarrow> bool" where
  "jlt (Fin a) (Fin b) = (a < b)"
| "jlt (Fin a) PInf = True"
| "jlt NInf (Fin b) = True"
| "jlt NInf PInf = True"
| "jlt _ _ = False"

definition jgt :: "jsval \<Rightarrow> jsval \<Rightarrow> bool" where
  "jgt a b = jlt b a"

fun jle :: "jsval \<Rightarrow> jsval \<Rightarrow> bool" where
  "jle (Fin a) (Fin b) = (a \<le> b)"
| "jle (Fin a) PInf = True"
| "jle NInf (Fin b) = True"
| "jle NInf PInf = True"
| "jle PInf PInf = True"
| "jle NInf NInf = True"
| "jle _ _ = False"

definition jge :: "jsval \<Rightarrow> jsval \<Rightarrow> bool" where
  "jge a b = jle b a"

text \<open>Strict equality \<open>===\<close>: NaN differs from itself.\<close>

fun jseq :: "jsval \<Rightarrow> jsval \<Rightarrow> bool" where
  "jseq NaN _ = False"
| "jseq _ NaN = False"
| "jseq a b = (a = b)"

text \<open>
  Reading \<open>xs[i]\<close>: a position outside the array is \<open>undefined\<close>. Writing \<open>xs[i] = v\<close>
  beyond the end extends the array; the positions skipped are holes, which read as
  \<open>undefined\<close>.
\<close>

definition arr_get :: "jsval list \<Rightarrow> int \<Rightarrow> jsval" where
  "arr_get xs i = (if 0 \<le> i \<and> i < int (length xs) then xs ! nat i else Undefined)"

definition arr_set :: "jsval list \<Rightarrow> nat \<Rightarrow> jsval \<Rightarrow> jsval list" where
  "arr_set xs i v =
     (if i < length xs then xs[i := v]
      else xs @ replicate (i - length xs) Undefined @ [v])"

section \<open>Momentum snapshot: \<open>getRecentRSIDiff\<close>\<close>

datatype direction = Pump | Dump | Neutral

record snapshot =
  recentHigh :: jsval
  recentLow :: jsval
  pumpStrength :: jsval
  dumpStrength :: jsval
  direction :: direction
  strength :: jsval

text \<open>\<open>rsi.slice(-lookback)\<close>: the last \<open>lookback\<close> positions; \<open>slice(-0)\<close> is the whole array.\<close>

definition slice_last :: "jsval list \<Rightarrow> nat \<Rightarrow> jsval list" where
  "slice_last xs n = (if n = 0 then xs else drop (length xs - n) xs)"

text \<open>The \<open>for (const value of recentRSI)\<close> loop, carrying \<open>(recentHigh, recentLow)\<close>.\<close>

fun high_low_loop :: "jsval list \<Rightarrow> jsval \<times> jsval \<Rightarrow> jsval \<times> jsval" where
  "high_low_loop [] hl = hl"
| "high_low_loop (v # vs) (h, l) =
     (if \<not> isNaN v
      then high_low_loop vs (if jgt v h then v else h, if jlt v l then v else l)
      else high_low_loop vs (h, l))"

definition getRecentRSIDiff :: "jsval list \<Rightarrow> nat \<Rightarrow> snapshot option" where
  "getRecentRSIDiff rsi lookback =
     (if length rsi < lookback then None
      else
        let recentRSI = slice_last rsi lookback;
            (recentHigh, recentLow) = high_low_loop recentRSI (NInf, PInf);
            pumpStrength = jsub recentHigh recentLow;
            dumpStrength = jabs (jsub recentLow recentHigh);
            startRSI = arr_get recentRSI 0;
            endRSI = arr_get recentRSI (int (length recentRSI) - 1);
            direction = (if jgt endRSI startRSI then Pump
                         else if jlt endRSI startRSI then Dump else Neutral);
            strength = jabs (jsub endRSI startRSI)
        in Some \<lparr> recentHigh = recentHigh, recentLow = recentLow,
                  pumpStrength = pumpStrength, dumpStrength = dumpStrength,
                  direction = direction, strength = strength \<rparr>)"


section \<open>Exponential moving average: \<open>calculateEMA\<close>\<close>

text \<open>
  \<open>data.slice(0, period).reduce((sum, val) => sum + val, 0) / period\<close>, the simple
  average that seeds the recursion. The period is a count of data points, a natural number.
\<close>

definition sma :: "jsval list \<Rightarrow> nat \<Rightarrow> jsval" where
  "sma data period = jdiv (foldl jadd (Fin 0) (take period data)) (Fin (of_nat period))"

text \<open>
  The loop over \<open>i\<close>, carrying the output array \<open>ema\<close> and \<open>previousEma\<close> (\<open>None\<close> is
  the initial \<open>null\<close>). The comparisons with \<open>period - 1\<close> are on integers, as
  \<open>period - 1\<close> is \<open>-1\<close> for a period of zero.
\<close>

function ema_loop ::
  "jsval list \<Rightarrow> nat \<Rightarrow> jsval \<Rightarrow> nat \<Rightarrow> jsval list \<Rightarrow> jsval option \<Rightarrow> jsval list" where
  "ema_loop data period k i ema previousEma =
     (if i < length data then
        if int i < int period - 1 then
          ema_loop data period k (Suc i) (ema @ [NaN]) previousEma
        else
          let previousEma1 =
                (if int i = int period - 1 then Some (sma data period) else previousEma)
          in (case previousEma1 of
                Some prev \<Rightarrow>
                  let currentEma = jadd (jmul (arr_get data (int i)) k)
                                        (jmul prev (jsub (Fin 1) k))
                  in ema_loop data period k (Suc i) (ema @ [currentEma]) (Some currentEma)
              | None \<Rightarrow> ema_loop data period k (Suc i) ema None)
      else ema)"
  by pat_completeness auto
termination
  by (relation "measure (\<lambda>(data, period, k, i, ema, previousEma). length data - i)") auto

declare ema_loop.simps [simp del]

definition smoothing :: "nat \<Rightarrow> jsval" where
  "smoothing period = jdiv (Fin 2) (jadd (Fin (of_nat period)) (Fin 1))"

definition calculateEMA :: "jsval list \<Rightarrow> nat \<Rightarrow> jsval list" where
  "calculateEMA data period = ema_loop data period (smoothing period) 0 [] None"

text \<open>
  The recursion of the loop once it has a previous value, as a function of the remaining
  inputs; used to describe the result.
\<close>

fun ema_run :: "jsval \<Rightarrow> jsval \<Rightarrow> jsval list \<Rightarrow> jsval list" where
  "ema_run k prev [] = []"
| "ema_run k prev (x # xs) =
     (let currentEma = jadd (jmul x k) (jmul prev (jsub (Fin 1) k))
      in currentEma # ema_run k currentEma xs)"

section \<open>Relative strength index: \<open>calculateRSI\<close>\<close>

text \<open>The first loop, \<open>i = 1 .. period\<close>, summing gains and losses apart.\<close>

function rsi_seed_loop ::
  "jsval list \<Rightarrow> nat \<Rightarrow> nat \<Rightarrow> jsval \<times> jsval \<Rightarrow> jsval \<times> jsval" where
  "rsi_seed_loop closes period i (gains, losses) =
     (if i \<le> period then
        let diff = jsub (arr_get closes (int i)) (arr_get closes (int i - 1))
        in if jgt diff (Fin 0)
           then rsi_seed_loop closes period (Suc i) (jadd gains diff, losses)
           else rsi_seed_loop closes period (Suc i) (gains, jsub losses diff)
      else (gains, losses))"
  by pat_completeness auto
termination
  by (relation "measure (\<lambda>(closes, period, i, gl). Suc period - i)") auto

declare rsi_seed_loop.simps [simp del]

definition relative_strength :: "jsval \<Rightarrow> jsval \<Rightarrow> jsval" where
  "relative_strength avgGain avgLoss =
     (if jseq avgLoss (Fin 0) then PInf else jdiv avgGain avgLoss)"

definition rsi_of_rs :: "jsval \<Rightarrow> jsval" where
  "rsi_of_rs rs = jsub (Fin 100) (jdiv (Fin 100) (jadd (Fin 1) rs))"

definition wilder :: "jsval \<Rightarrow> nat \<Rightarrow> jsval \<Rightarrow> jsval" where
  "wilder avg period x =
     jdiv (jadd (jmul avg (jsub (Fin (of_nat period)) (Fin 1))) x) (Fin (of_nat period))"

text \<open>The second loop, \<open>i = period + 1 .. closes.length - 1\<close>, writing \<open>rsi[i]\<close>.\<close>

function rsi_main_loop ::
  "jsval list \<Rightarrow> nat \<Rightarrow> nat \<Rightarrow> jsval list \<times> jsval \<times> jsval \<Rightarrow> jsval list" where
  "rsi_main_loop closes period i (rsi, avgGain, avgLoss) =
     (if i < length closes then
        let diff = jsub (arr_get closes (int i)) (arr_get closes (int i - 1));
            gain = (if jgt diff (Fin 0) then diff else Fin 0);
            loss = (if jlt diff (Fin 0) then jneg diff else Fin 0);
            avgGain1 = wilder avgGain period gain;
            avgLoss1 = wilder avgLoss period loss;
            rs = relative_strength avgGain1 avgLoss1
        in rsi_main_loop closes period (Suc i)
             (arr_set rsi i (rsi_of_rs rs), avgGain1, avgLoss1)
      else rsi)"
  by pat_completeness auto
termination
  by (relation "measure (\<lambda>(closes, period, i, st). length closes - i)") auto

declare rsi_main_loop.simps [simp del]

text \<open>The third loop, \<open>i = 0 .. period - 1\<close>, writing the sentinel.\<close>

function rsi_fill_loop :: "nat \<Rightarrow> nat \<Rightarrow> jsval list \<Rightarrow> jsval list" where
  "rsi_fill_loop period i rsi =
     (if i < period then rsi_fill_loop period (Suc i) (arr_set rsi i NaN) else rsi)"
  by pat_completeness auto
termination
  by (relation "measure (\<lambda>(period, i, rsi). period - i)") auto

declare rsi_fill_loop.simps [simp del]

definition calculateRSI :: "jsval list \<Rightarrow> nat \<Rightarrow> jsval list" where
  "calculateRSI closes period =
     (if length closes \<le> period then []
      else
        let (gains, losses) = rsi_seed_loop closes period 1 (Fin 0, Fin 0);
            avgGain = jdiv gains (Fin (of_nat period));
            avgLoss = jdiv losses (Fin (of_nat period));
            rs = relative_strength avgGain avgLoss;
            rsi = arr_set [] period (rsi_of_rs rs);
            rsi = rsi_main_loop closes period (period + 1) (rsi, avgGain, avgLoss)
        in rsi_fill_loop period 0 rsi)"

text \<open>A price series is strictly increasing when each close is below the next one.\<close>

fun strictly_increasing :: "jsval list \<Rightarrow> bool" where
  "strictly_increasing (x # y # xs) = (jlt x y \<and> strictly_increasing (y # xs))"
| "strictly_increasing _ = True"

section \<open>Signal classifier: \<open>getSignal\<close>\<close>

datatype signal_label =
    NO_DATA
  | MAX_ZONE_PUMP | MAX_ZONE_DUMP
  | BALANCE_ZONE_PUMP | BALANCE_ZONE_DUMP
  | LOWEST_ZONE_PUMP | LOWEST_ZONE_DUMP
  | NO_STRONG_SIGNAL

definition inRange :: "jsval \<Rightarrow> jsval \<Rightarrow> jsval \<Rightarrow> bool" where
  "inRange val mn mx = (val \<noteq> Undefined \<and> jge val mn \<and> jle val mx)"

definition isAbove30 :: "jsval \<Rightarrow> bool" where
  "isAbove30 val = (val \<noteq> Undefined \<and> jge val (Fin 30))"

text \<open>
  The object handed to \<open>getSignal\<close> is one per-symbol analysis as \<open>fetchAndAnalyze\<close>
  builds it (the fields carry the prefix \<open>a_\<close>). Only \<open>rsi14\<close> is read;
  \<open>None\<close> stands for a missing (falsy) field, while an array, even an empty one, is
  truthy.
\<close>

datatype colour = Green | Red

record main_trend =
  trend :: string
  trend_type :: string
  crossoverPrice :: jsval
  isNear :: bool
  isDojiAfterBreakout :: bool

record analysis =
  a_symbol :: string
  a_closes :: "jsval list"
  a_rsi14 :: "jsval list option"
  a_priceChangePercent :: jsval
  a_mainTrend :: main_trend
  a_prevClosedGreen :: "bool option"
  a_prevClosedRed :: "bool option"
  a_highestVolumeColorPrev :: "colour option"

text \<open>A sample analysis around a given RSI series, for concrete evaluations.\<close>

definition sample_analysis :: "jsval list \<Rightarrow> analysis" where
  "sample_analysis r =
     \<lparr> a_symbol = ''BTCUSDT'', a_closes = [], a_rsi14 = Some r, a_priceChangePercent = Fin 0,
       a_mainTrend = \<lparr> trend = ''bullish'', trend_type = ''support'', crossoverPrice = Fin 0,
                     isNear = False, isDojiAfterBreakout = False \<rparr>,
       a_prevClosedGreen = None, a_prevClosedRed = None, a_highestVolumeColorPrev = None \<rparr>"

definition getSignal :: "analysis \<Rightarrow> signal_label" where
  "getSignal s =
     (case (case a_rsi14 s of Some r \<Rightarrow> getRecentRSIDiff r 14 | None \<Rightarrow> None) of
        None \<Rightarrow> NO_DATA
      | Some pumpDump \<Rightarrow>
          let dir = direction pumpDump;
              pump = pumpStrength pumpDump;
              dump = dumpStrength pumpDump;
              pumpAbove30 = isAbove30 pump;
              dumpAbove30 = isAbove30 dump;
              pumpInRange_21_26 = inRange pump (Fin 21) (Fin 26);
              dumpInRange_21_26 = inRange dump (Fin 21) (Fin 26);
              pumpInRange_1_10 = inRange pump (Fin 1) (Fin 10);
              dumpInRange_1_10 = inRange dump (Fin 1) (Fin 10)
          in if dir = Pump \<and> pumpAbove30 then MAX_ZONE_PUMP
             else if dir = Dump \<and> dumpAbove30 then MAX_ZONE_DUMP
             else if pumpInRange_21_26 \<and> dir = Pump then BALANCE_ZONE_PUMP
             else if dumpInRange_21_26 \<and> dir = Dump then BALANCE_ZONE_DUMP
             else if pumpInRange_1_10 \<and> dir = Pump then LOWEST_ZONE_PUMP
             else if dumpInRange_1_10 \<and> dir = Dump then LOWEST_ZONE_DUMP
             else NO_STRONG_SIGNAL)"




section \<open>Session windows: \<open>getSessions\<close>\<close>

subsection \<open>The calendar functions of \<open>Date\<close>\<close>

text \<open>
  Time values are integers, milliseconds since the epoch. The functions below are the
  abstract operations of ECMAScript's \<open>Date\<close> (Day, DayFromYear, YearFromTime,
  MonthFromTime, DateFromTime, MakeDay, MakeTime, MakeDate, TimeClip) on integer
  arguments, the only ones \<open>getSessions\<close> passes. Integer division rounds down, as
  \<open>floor\<close> does.
\<close>

definition msPerDay :: int where
  "msPerDay = 86400000"

definition Day :: "int \<Rightarrow> int" where
  "Day t = t div msPerDay"

definition DayFromYear :: "int \<Rightarrow> int" where
  "DayFromYear y =
     365 * (y - 1970) + (y - 1969) div 4 - (y - 1901) div 100 + (y - 1601) div 400"

definition InLeapYear :: "int \<Rightarrow> int" where
  "InLeapYear y = (if y mod 4 = 0 \<and> (y mod 100 \<noteq> 0 \<or> y mod 400 = 0) then 1 else 0)"

text \<open>
  YearFromTime is the largest year whose first day is not after the day of \<open>t\<close>; it is
  found among the three years around the estimate from the mean length of a year.
\<close>

definition YearFromTime :: "int \<Rightarrow> int" where
  "YearFromTime t =
     (let d = Day t; y = 1970 + (d * 400) div 146097
      in if DayFromYear (y + 1) \<le> d then y + 1
         else if DayFromYear y \<le> d then y
         else y - 1)"

definition DayWithinYear :: "int \<Rightarrow> int" where
  "DayWithinYear t = Day t - DayFromYear (YearFromTime t)"

text \<open>The number of the first day of month \<open>m\<close> (0 to 11) within a year; \<open>l\<close> is 1 in a leap year.\<close>

definition month_start :: "int \<Rightarrow> int \<Rightarrow> int" where
  "month_start m l =
     (if m = 0 then 0 else if m = 1 then 31 else if m = 2 then 59 + l
      else if m = 3 then 90 + l else if m = 4 then 120 + l else if m = 5 then 151 + l
      else if m = 6 then 181 + l else if m = 7 then 212 + l else if m = 8 then 243 + l
      else if m = 9 then 273 + l else if m = 10 then 304 + l else 334 + l)"

definition MonthFromTime :: "int \<Rightarrow> int" where
  "MonthFromTime t =
     (let dwy = DayWithinYear t; l = InLeapYear (YearFromTime t)
      in if dwy < 31 then 0 else if dwy < 59 + l then 1 else if dwy < 90 + l then 2
         else if dwy < 120 + l then 3 else if dwy < 151 + l then 4 else if dwy < 181 + l then 5
         else if dwy < 212 + l then 6 else if dwy < 243 + l then 7 else if dwy < 273 + l then 8
         else if dwy < 304 + l then 9 else if dwy < 334 + l then 10 else 11)"

definition DateFromTime :: "int \<Rightarrow> int" where
  "DateFromTime t =
     DayWithinYear t - month_start (MonthFromTime t) (InLeapYear (YearFromTime t)) + 1"

definition MakeDay :: "int \<Rightarrow> int \<Rightarrow> int \<Rightarrow> int" where
  "MakeDay year month date =
     (let ym = year + month div 12; mn = month mod 12
      in DayFromYear ym + month_start mn (InLeapYear ym) + date - 1)"

definition MakeTime :: "int \<Rightarrow> int \<Rightarrow> int \<Rightarrow> int \<Rightarrow> int" where
  "MakeTime hour minute sec ms = hour * 3600000 + minute * 60000 + sec * 1000 + ms"

definition MakeDate :: "int \<Rightarrow> int \<Rightarrow> int" where
  "MakeDate day time = day * msPerDay + time"

definition TimeClip :: "int \<Rightarrow> jsval" where
  "TimeClip t = (if \<bar>t\<bar> > 8640000000000000 then NaN else Fin (of_int t))"

text \<open>\<open>Date.UTC(year, month, date, hour, minute)\<close>; a year from 0 to 99 means 1900 + year.\<close>

definition Date_UTC :: "int \<Rightarrow> int \<Rightarrow> int \<Rightarrow> int \<Rightarrow> int \<Rightarrow> jsval" where
  "Date_UTC year month date hour minute =
     (let yr = (if 0 \<le> year \<and> year \<le> 99 then 1900 + year else year)
      in TimeClip (MakeDate (MakeDay yr month date) (MakeTime hour minute 0 0)))"

subsection \<open>The session calculator\<close>

datatype timeframe = TF_15m | TF_4h | TF_1d

record sessions =
  sessionStart :: jsval
  sessionEnd :: jsval
  prevSessionStart :: jsval
  prevSessionEnd :: jsval

definition getUTCMillisFor1d :: "int \<Rightarrow> int \<Rightarrow> int \<Rightarrow> int \<Rightarrow> int \<Rightarrow> jsval" where
  "getUTCMillisFor1d y m d hPH mn = Date_UTC y m d (hPH - 8) mn"

text \<open>
  \<open>getSessions(tf)\<close> reads the clock (\<open>now\<close>, the time value of \<open>new Date()\<close>) and the
  component's \<open>timeframe\<close> state, used when no \<open>tf\<close> is passed.
\<close>

definition getSessions :: "timeframe \<Rightarrow> int \<Rightarrow> timeframe option \<Rightarrow> sessions" where
  "getSessions timeframe now tf =
     (let timeframeToUse = (case tf of Some t \<Rightarrow> t | None \<Rightarrow> timeframe)
      in if timeframeToUse = TF_1d then
           let year = YearFromTime now;
               month = MonthFromTime now;
               date = DateFromTime now;
               today8AM_UTC = getUTCMillisFor1d year month date 8 0;
               tomorrow745AM_UTC = getUTCMillisFor1d year month (date + 1) 7 45;
               (sessionStart, sessionEnd) =
                 (if jge (Fin (of_int now)) today8AM_UTC
                  then (today8AM_UTC, tomorrow745AM_UTC)
                  else
                    let yesterday8AM_UTC = getUTCMillisFor1d year month (date - 1) 8 0;
                        today745AM_UTC = getUTCMillisFor1d year month date 7 45
                    in (yesterday8AM_UTC, today745AM_UTC));
               prevSessionStart = getUTCMillisFor1d year month (date - 1) 8 0;
               prevSessionEnd = getUTCMillisFor1d year month date 7 45
           in \<lparr> sessionStart = sessionStart, sessionEnd = sessionEnd,
                prevSessionStart = prevSessionStart, prevSessionEnd = prevSessionEnd \<rparr>
         else
           let nowMillis = now;
               tfMillis = (if timeframeToUse = TF_15m then 15 * 60 * 1000 else 4 * 60 * 60 * 1000);
               sessionStart = (nowMillis div tfMillis) * tfMillis;
               sessionEnd = sessionStart + tfMillis;
               prevSessionStart = sessionStart - tfMillis;
               prevSessionEnd = sessionStart
           in \<lparr> sessionStart = Fin (of_int sessionStart), sessionEnd = Fin (of_int sessionEnd),
                prevSessionStart = Fin (of_int prevSessionStart),
                prevSessionEnd = Fin (of_int prevSessionEnd) \<rparr>)"

text \<open>
  The previous session as the specification words it: from 08:00 of yesterday to 07:45 of
  today, the days being those of the clock at UTC+8, given as UTC time values.
\<close>

definition spec_prev_session :: "int \<Rightarrow> jsval \<times> jsval" where
  "spec_prev_session now =
     (let local = now + 8 * 3600000;
          y = YearFromTime local; m = MonthFromTime local; d = DateFromTime local
      in (Date_UTC y m (d - 1) (8 - 8) 0, Date_UTC y m d (7 - 8) 45))"

section \<open>Resilient fetcher: \<open>fetchWithRetry\<close>\<close>

subsection \<open>Responses, payloads and string helpers\<close>

text \<open>
  The payloads the provider sends, after \<open>response.json()\<close>: \<open>null\<close>; an error object
  with its \<open>code\<close> and \<open>msg\<close> fields (either may be absent); the candle array, each row
  given by the numeric values of its first six fields (the values \<open>c[0]\<close> and
  \<open>+c[1] .. +c[5]\<close> that \<open>fetchAndAnalyze\<close> reads); the 24h ticker, given by the number
  \<open>parseFloat\<close> reads from \<open>priceChangePercent\<close>; the exchange information, given by the
  names in its \<open>symbols\<close> array, or \<open>None\<close> when that field is not an array.
\<close>

record kline =
  timestamp :: jsval
  k_open :: jsval
  k_high :: jsval
  k_low :: jsval
  k_close :: jsval
  k_volume :: jsval

datatype json =
    JNull
  | JError "int option" "string option"
  | JKlines "kline list"
  | JTicker jsval
  | JExchangeInfo "string list option"

fun json_code :: "json \<Rightarrow> int option" where
  "json_code (JError c m) = c"
| "json_code _ = None"

fun json_msg :: "json \<Rightarrow> string option" where
  "json_msg (JError c m) = m"
| "json_msg _ = None"

text \<open>
  A response: its status, its status text, the \<open>Retry-After\<close> header if present, and
  what \<open>response.json()\<close> gives: the payload, or a rejection with the error's message.
  \<open>fetch\<close> itself either rejects (a network error, with its message) or resolves.
\<close>

record response =
  status :: nat
  statusText :: string
  retryAfter :: "string option"
  body :: "string + json"

definition ok :: "response \<Rightarrow> bool" where
  "ok r = (200 \<le> status r \<and> status r \<le> 299)"

datatype fetch_outcome = Rejects string | Resolves response

fun starts_with :: "string \<Rightarrow> string \<Rightarrow> bool" where
  "starts_with s [] = True"
| "starts_with [] (p # ps) = False"
| "starts_with (c # cs) (p # ps) = (c = p \<and> starts_with cs ps)"

fun str_includes :: "string \<Rightarrow> string \<Rightarrow> bool" where
  "str_includes [] p = (p = [])"
| "str_includes (c # cs) p = (starts_with (c # cs) p \<or> str_includes cs p)"

definition endsWith :: "string \<Rightarrow> string \<Rightarrow> bool" where
  "endsWith s p = starts_with (rev s) (rev p)"

text \<open>The decimal digits of a number, as string concatenation writes a status.\<close>

function show_nat :: "nat \<Rightarrow> string" where
  "show_nat n =
     (if n < 10 then [char_of (48 + n)]
      else show_nat (n div 10) @ [char_of (48 + n mod 10)])"
  by pat_completeness auto
termination
  by (relation "measure id") auto

declare show_nat.simps [simp del]

text \<open>
  \<open>parseInt(s, 10)\<close>: leading white space (the ASCII part of it), an optional sign, then
  the longest run of decimal digits; NaN when there is no digit.
\<close>

definition is_space :: "char \<Rightarrow> bool" where
  "is_space c = (c \<in> set [CHR '' '', CHR 0x09, CHR 0x0A, CHR 0x0B, CHR 0x0C, CHR 0x0D])"

definition is_digit :: "char \<Rightarrow> bool" where
  "is_digit c = (48 \<le> (of_char c :: nat) \<and> (of_char c :: nat) \<le> 57)"

definition digits_value :: "string \<Rightarrow> nat" where
  "digits_value ds = foldl (\<lambda>acc c. 10 * acc + (of_char c - 48)) 0 ds"

definition parseInt :: "string \<Rightarrow> jsval" where
  "parseInt s =
     (let t = dropWhile is_space s;
          (neg, u) = (case t of
                        c # cs \<Rightarrow> if c = CHR ''-'' then (True, cs)
                                  else if c = CHR ''+'' then (False, cs) else (False, t)
                      | [] \<Rightarrow> (False, t));
          ds = takeWhile is_digit u
      in if ds = [] then NaN
         else if neg then Fin (- of_nat (digits_value ds)) else Fin (of_nat (digits_value ds)))"

subsection \<open>The retry loop\<close>

text \<open>
  What the body of the \<open>try\<close> block does with the outcome of one GET at attempt \<open>i\<close>:
  sleep and \<open>continue\<close>, \<open>return\<close> a value (\<open>JNull\<close> is \<open>null\<close>), or \<open>throw\<close> an error,
  which the \<open>catch\<close> block of the same iteration receives. Errors are given by their
  message.
\<close>

datatype attempt = Continue jsval | Return json | Throw string

definition backoff :: "jsval \<Rightarrow> nat \<Rightarrow> jsval" where
  "backoff delay i = jmul delay (Fin (2 ^ i))"

definition http_error :: "response \<Rightarrow> json \<Rightarrow> string" where
  "http_error r errorBody =
     ''HTTP error! status: '' @ show_nat (status r) @ '', message: '' @
       (case json_msg errorBody of
          Some m \<Rightarrow> if m = [] then statusText r else m
        | None \<Rightarrow> statusText r)"

definition try_body :: "fetch_outcome \<Rightarrow> jsval \<Rightarrow> nat \<Rightarrow> attempt" where
  "try_body outcome delay i =
     (case outcome of
        Rejects m \<Rightarrow> Throw m
      | Resolves r \<Rightarrow>
          if status r = 429 \<or> status r = 418 then
            Continue (case retryAfter r of
                        Some h \<Rightarrow> if h = [] then backoff delay i
                                  else jmul (parseInt h) (Fin 1000)
                      | None \<Rightarrow> backoff delay i)
          else if \<not> ok r then
            (case body r of
               Inl m \<Rightarrow> Throw m
             | Inr JNull \<Rightarrow> Throw ''Cannot read properties of null (reading 'code')''
             | Inr errorBody \<Rightarrow>
                 if json_code errorBody = Some (- 1003) then Continue (backoff delay i)
                 else if json_code errorBody = Some (- 1121)
                       \<or> json_msg errorBody = Some ''Invalid symbol.''
                       \<or> json_msg errorBody = Some ''Invalid symbol status.''
                      then Return JNull
                 else Throw (http_error r errorBody))
          else
            (case body r of
               Inl m \<Rightarrow> Throw m
             | Inr j \<Rightarrow> Return j))"

text \<open>
  The events a call leaves behind: the GETs it performs and the sleeps it takes, with
  their length in milliseconds.
\<close>

datatype event = GET | Sleep jsval

text \<open>
  The \<open>for\<close> loop. \<open>server i\<close> is the outcome of the GET of iteration \<open>i\<close>, the \<open>i\<close>-th the
  call performs. \<open>continue\<close> goes on with \<open>i + 1\<close>, as does leaving the \<open>catch\<close> block. The
  result is the value returned (\<open>Inr\<close>) or the error thrown to the caller (\<open>Inl\<close>).
\<close>

function fetch_loop ::
  "(nat \<Rightarrow> fetch_outcome) \<Rightarrow> nat \<Rightarrow> jsval \<Rightarrow> nat \<Rightarrow> event list
     \<Rightarrow> (string + json) \<times> event list" where
  "fetch_loop server retries delay i trace =
     (if i < retries then
        (case try_body (server i) delay i of
           Continue waitTime \<Rightarrow>
             fetch_loop server retries delay (Suc i) (trace @ [GET, Sleep waitTime])
         | Return v \<Rightarrow> (Inr v, trace @ [GET])
         | Throw error \<Rightarrow>
             if int i < int retries - 1 then
               fetch_loop server retries delay (Suc i) (trace @ [GET, Sleep (backoff delay i)])
             else if str_includes error ''Invalid symbol'' then (Inr JNull, trace @ [GET])
             else (Inl error, trace @ [GET]))
      else (Inr JNull, trace))"
  by pat_completeness auto
termination
  by (relation "measure (\<lambda>(server, retries, delay, i, trace). retries - i)") auto

declare fetch_loop.simps [simp del]

definition fetchWithRetry ::
  "(nat \<Rightarrow> fetch_outcome) \<Rightarrow> nat \<Rightarrow> jsval \<Rightarrow> (string + json) \<times> event list" where
  "fetchWithRetry server retries delay = fetch_loop server retries delay 0 []"

definition count_gets :: "event list \<Rightarrow> nat" where
  "count_gets trace = length (filter (\<lambda>e. e = GET) trace)"

definition count_sleeps :: "event list \<Rightarrow> nat" where
  "count_sleeps trace = length (filter (\<lambda>e. e \<noteq> GET) trace)"

text \<open>Outcomes and stubs used to state the properties.\<close>

definition rate_limited :: "fetch_outcome \<Rightarrow> bool" where
  "rate_limited outcome =
     (case outcome of Rejects m \<Rightarrow> False | Resolves r \<Rightarrow> status r = 429 \<or> status r = 418)"

definition invalid_symbol :: "json \<Rightarrow> bool" where
  "invalid_symbol errorBody =
     (json_code errorBody = Some (- 1121)
      \<or> json_msg errorBody = Some ''Invalid symbol.''
      \<or> json_msg errorBody = Some ''Invalid symbol status.'')"

definition too_many_requests :: response where
  "too_many_requests =
     \<lparr> status = 429, statusText = ''Too Many Requests'', retryAfter = None,
       body = Inr (JError (Some (- 1003)) (Some ''Too many requests.'')) \<rparr>"

definition always_429 :: "nat \<Rightarrow> fetch_outcome" where
  "always_429 k = Resolves too_many_requests"

definition bad_symbol_400 :: response where
  "bad_symbol_400 =
     \<lparr> status = 400, statusText = ''Bad Request'', retryAfter = None,
       body = Inr (JError (Some (- 1121)) (Some ''Invalid symbol.'')) \<rparr>"

definition bad_symbol_429 :: response where
  "bad_symbol_429 =
     \<lparr> status = 429, statusText = ''Too Many Requests'', retryAfter = None,
       body = Inr (JError (Some (- 1121)) (Some ''Invalid symbol.'')) \<rparr>"

definition always_bad_symbol_400 :: "nat \<Rightarrow> fetch_outcome" where
  "always_bad_symbol_400 k = Resolves bad_symbol_400"

definition always_bad_symbol_429 :: "nat \<Rightarrow> fetch_outcome" where
  "always_bad_symbol_429 k = Resolves bad_symbol_429"

definition banned_bad_symbol_400 :: response where
  "banned_bad_symbol_400 =
     \<lparr> status = 400, statusText = ''Bad Request'', retryAfter = None,
       body = Inr (JError (Some (- 1003)) (Some ''Invalid symbol.'')) \<rparr>"

definition always_banned_bad_symbol_400 :: "nat \<Rightarrow> fetch_outcome" where
  "always_banned_bad_symbol_400 k = Resolves banned_bad_symbol_400"

section \<open>Per-symbol analysis: \<open>fetchAndAnalyze\<close>\<close>

text \<open>
  The network gives, for each url, the outcomes of the successive GETs of that url. The
  clock reading \<open>now\<close> and the component's \<open>timeframe\<close> state are what \<open>getSessions\<close>
  reads. Both calls of \<open>fetchWithRetry\<close> use its default budget of 5 and delay of 1000.
\<close>

type_synonym network = "string \<Rightarrow> nat \<Rightarrow> fetch_outcome"

fun timeframe_text :: "timeframe \<Rightarrow> string" where
  "timeframe_text TF_15m = ''15m''"
| "timeframe_text TF_4h = ''4h''"
| "timeframe_text TF_1d = ''1d''"

definition klines_url :: "string \<Rightarrow> string \<Rightarrow> string" where
  "klines_url symbol interval =
     ''https://fapi.binance.com/fapi/v1/klines?symbol='' @ symbol
       @ ''&interval='' @ interval @ ''&limit=500''"

definition ticker_url :: "string \<Rightarrow> string" where
  "ticker_url symbol = ''https://fapi.binance.com/fapi/v1/ticker/24hr?symbol='' @ symbol"

definition exchange_info_url :: string where
  "exchange_info_url = ''https://fapi.binance.com/fapi/v1/exchangeInfo''"

text \<open>\<open>x || 0\<close> on a number or \<open>undefined\<close>, and \<open>xs.at(-1)\<close>.\<close>

fun or_zero :: "jsval \<Rightarrow> jsval" where
  "or_zero Undefined = Fin 0"
| "or_zero NaN = Fin 0"
| "or_zero x = x"

definition at_last :: "jsval list \<Rightarrow> jsval" where
  "at_last xs = arr_get xs (int (length xs) - 1)"

text \<open>The search for the candle of highest volume, carrying \<open>(maxVolume, highestVolumeCandle)\<close>.\<close>

fun highest_volume_loop :: "kline list \<Rightarrow> jsval \<times> kline option \<Rightarrow> jsval \<times> kline option" where
  "highest_volume_loop [] st = st"
| "highest_volume_loop (candle # cs) (maxVolume, highestVolumeCandle) =
     (if jgt (k_volume candle) maxVolume
      then highest_volume_loop cs (k_volume candle, Some candle)
      else highest_volume_loop cs (maxVolume, highestVolumeCandle))"

text \<open>
  The result is the rejection of the promise (\<open>Inl\<close>, an error the function does not
  catch), \<open>null\<close> (\<open>Inr None\<close>) or the analysis. A payload that is not an array makes
  \<open>raw.map\<close> throw. The series \<open>opens\<close>, \<open>highs\<close>, \<open>lows\<close> and \<open>ema14\<close> are computed by the
  source and never read; they are left out.
\<close>

definition fetchAndAnalyze ::
  "network \<Rightarrow> timeframe \<Rightarrow> int \<Rightarrow> string \<Rightarrow> timeframe \<Rightarrow> string + analysis option" where
  "fetchAndAnalyze net timeframe now symbol interval =
     (case fst (fetchWithRetry (net (klines_url symbol (timeframe_text interval))) 5 (Fin 1000)) of
        Inl error \<Rightarrow> Inl error
      | Inr JNull \<Rightarrow> Inr None
      | Inr (JKlines candles) \<Rightarrow>
          let closes = map k_close candles;
              ema70 = calculateEMA closes 70;
              ema200 = calculateEMA closes 200;
              rsi14 = calculateRSI closes 14
          in (case fst (fetchWithRetry (net (ticker_url symbol)) 5 (Fin 1000)) of
                Inl error \<Rightarrow> Inl error
              | Inr JNull \<Rightarrow> Inr None
              | Inr ticker24h \<Rightarrow>
                  let priceChangePercent = (case ticker24h of JTicker v \<Rightarrow> v | _ \<Rightarrow> NaN);
                      lastEMA70 = or_zero (at_last ema70);
                      lastEMA200 = or_zero (at_last ema200);
                      mainTrend =
                        \<lparr> trend = (if jge lastEMA70 lastEMA200 then ''bullish'' else ''bearish''),
                          trend_type = (if jge lastEMA70 lastEMA200 then ''support''
                                        else ''resistance''),
                          crossoverPrice = or_zero (at_last closes),
                          isNear = False, isDojiAfterBreakout = False \<rparr>;
                      ses = getSessions timeframe now (Some interval);
                      candlesPrev =
                        filter (\<lambda>c. jge (timestamp c) (prevSessionStart ses)
                                    \<and> jle (timestamp c) (prevSessionEnd ses)) candles;
                      highestVolumeColorPrev =
                        (case snd (highest_volume_loop candlesPrev (Fin (- 1), None)) of
                           Some c \<Rightarrow> Some (if jgt (k_close c) (k_open c) then Green else Red)
                         | None \<Rightarrow> None);
                      prevCandle =
                        (if 2 \<le> length candles then Some (candles ! (length candles - 2))
                         else None);
                      prevClosedGreen = map_option (\<lambda>c. jgt (k_close c) (k_open c)) prevCandle;
                      prevClosedRed = map_option (\<lambda>c. jlt (k_close c) (k_open c)) prevCandle
                  in Inr (Some \<lparr> a_symbol = symbol, a_closes = closes, a_rsi14 = Some rsi14,
                                  a_priceChangePercent = priceChangePercent,
                                  a_mainTrend = mainTrend,
                                  a_prevClosedGreen = prevClosedGreen,
                                  a_prevClosedRed = prevClosedRed,
                                  a_highestVolumeColorPrev = highestVolumeColorPrev \<rparr>))
      | Inr other \<Rightarrow> Inl ''raw.map is not a function'')"

section \<open>Batch scheduler: \<open>processBatch\<close>\<close>

text \<open>
  The state the effect and the component keep between batches. \<open>st_nextBatch\<close> records
  that \<open>setTimeout(processBatch, INTERVAL_MS)\<close> has been called.
\<close>

record scheduler =
  st_signals :: "analysis list"
  st_loading :: bool
  st_lastUpdated :: "string option"
  st_isMounted :: bool
  st_currentIndex :: nat
  st_symbols :: "string list"
  st_nextBatch :: bool

definition BATCH_SIZE :: nat where
  "BATCH_SIZE = 10"

text \<open>
  \<open>await Promise.all(...)\<close>: the list of the values when every promise fulfils, and a
  rejection as soon as one rejects (here the first one in the order of the batch).
\<close>

fun promise_all :: "(string + 'a) list \<Rightarrow> string + 'a list" where
  "promise_all [] = Inr []"
| "promise_all (Inl error # ps) = Inl error"
| "promise_all (Inr v # ps) =
     (case promise_all ps of Inl error \<Rightarrow> Inl error | Inr vs \<Rightarrow> Inr (v # vs))"

text \<open>
  The first part of \<open>processBatch\<close>: the symbol universe is fetched once, inside a
  \<open>try\<close>/\<open>catch\<close>. \<open>None\<close> is the early \<open>return\<close> after \<open>setLoading(false)\<close>.
\<close>

definition load_symbols :: "network \<Rightarrow> string list option" where
  "load_symbols net =
     (case fst (fetchWithRetry (net exchange_info_url) 5 (Fin 1000)) of
        Inl error \<Rightarrow> None
      | Inr (JExchangeInfo (Some names)) \<Rightarrow> Some (filter (\<lambda>s. endsWith s ''USDT'') names)
      | Inr other \<Rightarrow> None)"

text \<open>
  The second part: the batch is awaited outside any \<open>try\<close>, so a rejection leaves the
  function at the \<open>await\<close> and is the rejection of \<open>processBatch\<close> itself.
\<close>

definition run_batch ::
  "network \<Rightarrow> timeframe \<Rightarrow> int \<Rightarrow> string \<Rightarrow> scheduler \<Rightarrow> string option \<times> scheduler" where
  "run_batch net timeframe now clock st =
     (case promise_all
             (map (\<lambda>symbol. fetchAndAnalyze net timeframe now symbol timeframe)
                  (take BATCH_SIZE (drop (st_currentIndex st) (st_symbols st)))) of
        Inl error \<Rightarrow> (Some error, st)
      | Inr newSignals \<Rightarrow>
          if st_isMounted st then
            let st1 = st \<lparr> st_signals := st_signals st @ [a. Some a \<leftarrow> newSignals],
                           st_currentIndex := st_currentIndex st + BATCH_SIZE,
                           st_lastUpdated := Some clock \<rparr>
            in if st_currentIndex st1 < length (st_symbols st1)
               then (None, st1 \<lparr> st_nextBatch := True \<rparr>)
               else (None, st1 \<lparr> st_loading := False \<rparr>)
          else (None, st))"

text \<open>
  \<open>processBatch\<close>: the first component of the result is the error the returned promise
  rejects with, if it does; nothing handles it.
\<close>

definition processBatch ::
  "network \<Rightarrow> timeframe \<Rightarrow> int \<Rightarrow> string \<Rightarrow> scheduler \<Rightarrow> string option \<times> scheduler" where
  "processBatch net timeframe now clock st =
     (if \<not> st_isMounted st then (None, st)
      else if st_symbols st = [] then
        (case load_symbols net of
           None \<Rightarrow> (None, st \<lparr> st_loading := False \<rparr>)
         | Some symbols \<Rightarrow> run_batch net timeframe now clock (st \<lparr> st_symbols := symbols \<rparr>))
      else run_batch net timeframe now clock st)"

text \<open>
  A pass over two symbols: every GET of the candles of \<open>AAAUSDT\<close> fails in the network,
  while \<open>BBBUSDT\<close> is served its candles and its ticker.
\<close>

definition sample_candles :: "kline list" where
  "sample_candles =
     [\<lparr> timestamp = Fin 1703980800000, k_open = Fin 10, k_high = Fin 12, k_low = Fin 9,
        k_close = Fin 11, k_volume = Fin 100 \<rparr>,
      \<lparr> timestamp = Fin 1704067200000, k_open = Fin 11, k_high = Fin 13, k_low = Fin 10,
        k_close = Fin 12, k_volume = Fin 80 \<rparr>]"

definition ok_response :: "json \<Rightarrow> fetch_outcome" where
  "ok_response j = Resolves \<lparr> status = 200, statusText = ''OK'', retryAfter = None, body = Inr j \<rparr>"

definition one_failing_net :: network where
  "one_failing_net url k =
     (if url = klines_url ''BBBUSDT'' ''1d'' then ok_response (JKlines sample_candles)
      else if url = ticker_url ''BBBUSDT'' then ok_response (JTicker (Fin 2))
      else Rejects ''Failed to fetch'')"

definition two_symbols :: scheduler where
  "two_symbols =
     \<lparr> st_signals = [], st_loading = True, st_lastUpdated = None, st_isMounted = True,
       st_currentIndex = 0, st_symbols = [''AAAUSDT'', ''BBBUSDT''], st_nextBatch = False \<rparr>"

section \<open>Properties of the momentum snapshot and the classifier\<close>





lemma getRecentRSIDiff_fields:
  assumes "n \<le> length r"
  shows "\<exists>s. getRecentRSIDiff r n = Some s
    \<and> pumpStrength s = jsub (fst (high_low_loop (slice_last r n) (NInf, PInf)))
                            (snd (high_low_loop (slice_last r n) (NInf, PInf)))
    \<and> dumpStrength s = jabs (jsub (snd (high_low_loop (slice_last r n) (NInf, PInf)))
                                  (fst (high_low_loop (slice_last r n) (NInf, PInf))))
    \<and> direction s =
         (if jgt (arr_get (slice_last r n) (int (length (slice_last r n)) - 1))
                 (arr_get (slice_last r n) 0) then Pump
          else if jlt (arr_get (slice_last r n) (int (length (slice_last r n)) - 1))
                      (arr_get (slice_last r n) 0) then Dump
          else Neutral)"
  using assms by (simp add: getRecentRSIDiff_def Let_def case_prod_beta)



subsection \<open>Pump strength against dump strength\<close>

lemma hl_step:
  "jle l h \<Longrightarrow> \<not> isNaN v \<Longrightarrow> jle (if jlt v l then v else l) (if jgt v h then v else h)"
  by (cases l; cases h; cases v) (auto simp: jgt_def)

lemma hl_inv: "jle l h \<Longrightarrow> high_low_loop vs (h, l) = (h', l') \<Longrightarrow> jle l' h'"
proof (induction vs arbitrary: h l)
  case Nil
  then show ?case by simp
next
  case (Cons v vs)
  show ?case
  proof (cases "isNaN v")
    case True
    with Cons show ?thesis by simp
  next
    case False
    from Cons.prems(2) False
    have "high_low_loop vs (if jgt v h then v else h, if jlt v l then v else l) = (h', l')"
      by simp
    with Cons.IH[OF hl_step[OF Cons.prems(1) False]] show ?thesis .
  qed
qed

lemma hl_first:
  "\<not> isNaN v \<Longrightarrow> jle (if jlt v PInf then v else PInf) (if jgt v NInf then v else NInf)"
  by (cases v) (auto simp: jgt_def)

lemma hl_some:
  "\<exists>v\<in>set vs. \<not> isNaN v \<Longrightarrow> high_low_loop vs (NInf, PInf) = (h', l') \<Longrightarrow> jle l' h'"
proof (induction vs)
  case Nil
  then show ?case by simp
next
  case (Cons v vs)
  show ?case
  proof (cases "isNaN v")
    case True
    with Cons show ?thesis by auto
  next
    case False
    with Cons.prems(2) hl_inv[OF hl_first[OF False]] show ?thesis by simp
  qed
qed

lemma jle_strengths: "jle l h \<Longrightarrow> jsub h l = jabs (jsub l h)"
  by (cases l; cases h) (auto simp: jsub_def)

text \<open>
  C4, as the code has it. When the last-14 window holds at least one value that is not the
  sentinel, \<open>recentLow \<le> recentHigh\<close> and the two strengths are the same value. (With the
  two extremes at the same infinity both are NaN.)
\<close>

theorem pump_equals_dump_defined_window:
  assumes "14 \<le> length r"
    and "\<exists>v\<in>set (slice_last r 14). \<not> isNaN v"
  shows "\<exists>s. getRecentRSIDiff r 14 = Some s \<and> pumpStrength s = dumpStrength s"
proof -
  obtain h l where hl: "high_low_loop (slice_last r 14) (NInf, PInf) = (h, l)"
    by fastforce
  from hl_some[OF assms(2) hl] have "jsub h l = jabs (jsub l h)"
    by (rule jle_strengths)
  with getRecentRSIDiff_fields[OF assms(1)] hl show ?thesis by auto
qed

theorem pump_equals_dump_defined_window_witness:
  "14 \<le> length (replicate 13 (Fin 30) @ [Fin 65])
   \<and> (\<exists>v\<in>set (slice_last (replicate 13 (Fin 30) @ [Fin 65]) 14). \<not> isNaN v)
   \<and> (\<exists>s. getRecentRSIDiff (replicate 13 (Fin 30) @ [Fin 65]) 14 = Some s
          \<and> pumpStrength s = dumpStrength s)"
proof -
  have a: "14 \<le> length (replicate 13 (Fin 30) @ [Fin 65])" by simp
  have b: "\<exists>v\<in>set (slice_last (replicate 13 (Fin 30) @ [Fin 65]) 14). \<not> isNaN v"
    by (simp add: slice_last_def)
  from a b pump_equals_dump_defined_window[OF a b] show ?thesis by blast
qed

text \<open>
  C4, as stated, fails on the window of fourteen sentinels: \<open>recentHigh\<close> stays at
  \<open>-Infinity\<close> and \<open>recentLow\<close> at \<open>Infinity\<close>, so the pump strength is \<open>-Infinity\<close>
  and the dump strength is \<open>Infinity\<close>.
\<close>

theorem pump_dump_all_sentinel_counterexample:
  "14 \<le> length (replicate 14 NaN)
   \<and> getRecentRSIDiff (replicate 14 NaN) 14 \<noteq> None
   \<and> pumpStrength (the (getRecentRSIDiff (replicate 14 NaN) 14)) = NInf
   \<and> dumpStrength (the (getRecentRSIDiff (replicate 14 NaN) 14)) = PInf
   \<and> pumpStrength (the (getRecentRSIDiff (replicate 14 NaN) 14))
       \<noteq> dumpStrength (the (getRecentRSIDiff (replicate 14 NaN) 14))"
  by (simp add: getRecentRSIDiff_def slice_last_def Let_def jsub_def numeral_eq_Suc)

subsection \<open>Sentinel endpoints\<close>

lemma nan_cmp: "isNaN a \<or> isNaN b \<Longrightarrow> \<not> jlt a b \<and> \<not> jgt a b"
  by (cases a; cases b) (auto simp: jgt_def)

text \<open>
  C10. If the first or the last element of the last-14 window is the sentinel, both
  comparisons of the endpoints are false, the direction is neutral, and \<open>getSignal\<close> can
  only answer \<open>NO_STRONG_SIGNAL\<close>.
\<close>

theorem sentinel_endpoint_neutral:
  assumes "14 \<le> length r"
    and "isNaN (r ! (length r - 14)) \<or> isNaN (r ! (length r - 1))"
    and "a_rsi14 a = Some r"
  shows "(\<exists>s. getRecentRSIDiff r 14 = Some s \<and> direction s = Neutral)
         \<and> getSignal a = NO_STRONG_SIGNAL"
proof -
  let ?w = "slice_last r 14"
  have len: "length ?w = 14"
    using assms(1) by (simp add: slice_last_def)
  have s0: "arr_get ?w 0 = r ! (length r - 14)"
    using assms(1) len by (simp add: arr_get_def) (simp add: slice_last_def)
  have s1: "arr_get ?w (int (length ?w) - 1) = r ! (length r - 1)"
    using assms(1) by (simp add: len arr_get_def) (simp add: slice_last_def)
  from assms(2) s0 s1
  have n: "\<not> jgt (arr_get ?w (int (length ?w) - 1)) (arr_get ?w 0)"
    "\<not> jlt (arr_get ?w (int (length ?w) - 1)) (arr_get ?w 0)"
    using nan_cmp by metis+
  from getRecentRSIDiff_fields[OF assms(1)] n
  obtain s where s: "getRecentRSIDiff r 14 = Some s" and d: "direction s = Neutral"
    by auto
  show ?thesis using s d assms(3) by (auto simp: getSignal_def Let_def)
qed

theorem sentinel_endpoint_neutral_witness:
  "14 \<le> length (NaN # replicate 12 (Fin 40) @ [Fin 90])
   \<and> isNaN ((NaN # replicate 12 (Fin 40) @ [Fin 90]) ! 0)
   \<and> direction (the (getRecentRSIDiff (NaN # replicate 12 (Fin 40) @ [Fin 90]) 14)) = Neutral
   \<and> getSignal (sample_analysis (NaN # replicate 12 (Fin 40) @ [Fin 90])) = NO_STRONG_SIGNAL"
proof -
  let ?r = "NaN # replicate 12 (Fin 40) @ [Fin 90]"
  have a: "14 \<le> length ?r" by simp
  have b: "isNaN (?r ! (length ?r - 14)) \<or> isNaN (?r ! (length ?r - 1))" by simp
  have c: "a_rsi14 (sample_analysis ?r) = Some ?r" by (simp add: sample_analysis_def)
  from sentinel_endpoint_neutral[OF a b c] show ?thesis by auto
qed

section \<open>Properties of \<open>calculateEMA\<close>\<close>

lemma arr_get_nth: "i < length xs \<Longrightarrow> arr_get xs (int i) = xs ! i"
  by (simp add: arr_get_def)

lemma ema_phase2:
  "period \<le> i \<Longrightarrow> ema_loop data period k i ema (Some p) = ema @ ema_run k p (drop i data)"
proof (induction "length data - i" arbitrary: i ema p)
  case 0
  then show ?case by (subst ema_loop.simps) simp
next
  case (Suc n)
  then have lt: "i < length data" by simp
  let ?c = "jadd (jmul (data ! i) k) (jmul p (jsub (Fin 1) k))"
  have ih: "ema_loop data period k (Suc i) (ema @ [?c]) (Some ?c)
      = (ema @ [?c]) @ ema_run k ?c (drop (Suc i) data)"
    using Suc by (intro Suc.hyps(1)) simp_all
  have d: "drop i data = data ! i # drop (Suc i) data"
    using lt by (simp add: Cons_nth_drop_Suc)
  have "ema_loop data period k i ema (Some p)
      = ema_loop data period k (Suc i) (ema @ [?c]) (Some ?c)"
    using lt Suc.prems by (subst ema_loop.simps) (simp add: arr_get_nth Let_def)
  with ih d show ?case by (simp add: Let_def)
qed

lemma ema_phase1:
  "1 \<le> period \<Longrightarrow> i \<le> period - 1 \<Longrightarrow>
   ema_loop data period k i ema None =
     (if length data < period then ema @ replicate (length data - i) NaN
      else ema @ replicate (period - 1 - i) NaN
             @ ema_run k (sma data period) (drop (period - 1) data))"
proof (induction "length data - i" arbitrary: i ema)
  case 0
  then show ?case by (subst ema_loop.simps) auto
next
  case (Suc n)
  then have lt: "i < length data" by simp
  show ?case
  proof (cases "i = period - 1")
    case True
    let ?c = "jadd (jmul (data ! i) k) (jmul (sma data period) (jsub (Fin 1) k))"
    have "ema_loop data period k i ema None
      = ema_loop data period k (Suc i) (ema @ [?c]) (Some ?c)"
      using lt True Suc.prems arr_get_nth[OF lt] by (subst ema_loop.simps) (simp add: Let_def)
    also have "\<dots> = (ema @ [?c]) @ ema_run k ?c (drop (Suc i) data)"
      using True Suc.prems by (intro ema_phase2) simp
    finally have e: "ema_loop data period k i ema None
        = ema @ ?c # ema_run k ?c (drop (Suc i) data)" by simp
    have ge: "\<not> length data < period" using lt True Suc.prems by simp
    have d: "drop (period - 1) data = data ! i # drop (Suc i) data"
      using lt True by (simp add: Cons_nth_drop_Suc)
    have r: "replicate (period - 1 - i) NaN = []" using True by simp
    show ?thesis unfolding e d r using ge by (simp add: Let_def)
  next
    case False
    with Suc.prems have lt2: "i < period - 1" by simp
    have "ema_loop data period k i ema None
      = ema_loop data period k (Suc i) (ema @ [NaN]) None"
    proof -
      have "int i < int period - 1" using lt2 by linarith
      with lt show ?thesis by (subst ema_loop.simps) simp
    qed
    also have "\<dots> = (if length data < period then (ema @ [NaN]) @ replicate (length data - Suc i) NaN
      else (ema @ [NaN]) @ replicate (period - 1 - Suc i) NaN
             @ ema_run k (sma data period) (drop (period - 1) data))"
      using Suc lt2 by (intro Suc.hyps(1)) simp_all
    finally have e: "ema_loop data period k i ema None =
      (if length data < period then (ema @ [NaN]) @ replicate (length data - Suc i) NaN
       else (ema @ [NaN]) @ replicate (period - 1 - Suc i) NaN
             @ ema_run k (sma data period) (drop (period - 1) data))" .
    have n1: "length data - i = Suc (length data - Suc i)" using lt by simp
    have n2: "period - 1 - i = Suc (period - 1 - Suc i)" using lt2 by simp
    have r1: "replicate (length data - i) NaN = NaN # replicate (length data - Suc i) NaN"
      by (simp only: n1 replicate_Suc)
    have r2: "replicate (period - 1 - i) NaN = NaN # replicate (period - 1 - Suc i) NaN"
      by (simp only: n2 replicate_Suc)
    show ?thesis unfolding e r1 r2 by simp
  qed
qed

lemma calculateEMA_shape:
  "1 \<le> period \<Longrightarrow> calculateEMA data period =
     (if length data < period then replicate (length data) NaN
      else replicate (period - 1) NaN
             @ ema_run (smoothing period) (sma data period) (drop (period - 1) data))"
  unfolding calculateEMA_def by (subst ema_phase1) simp_all

lemma length_ema_run: "length (ema_run k p xs) = length xs"
  by (induction xs arbitrary: p) (simp_all add: Let_def)

lemma length_calculateEMA: "1 \<le> period \<Longrightarrow> length (calculateEMA data period) = length data"
  by (simp add: calculateEMA_shape length_ema_run)

lemma ema_run_0:
  "xs \<noteq> [] \<Longrightarrow> ema_run k p xs ! 0 = jadd (jmul (xs ! 0) k) (jmul p (jsub (Fin 1) k))"
  by (cases xs) (simp_all add: Let_def)

lemma ema_run_Suc:
  "Suc j < length xs \<Longrightarrow>
   ema_run k p xs ! Suc j = jadd (jmul (xs ! Suc j) k) (jmul (ema_run k p xs ! j) (jsub (Fin 1) k))"
proof (induction xs arbitrary: p j)
  case Nil
  then show ?case by simp
next
  case (Cons x xs)
  show ?case
  proof (cases j)
    case 0
    with Cons.prems show ?thesis by (cases xs) (simp_all add: Let_def)
  next
    case (Suc j')
    with Cons.prems Cons.IH[of j'] show ?thesis by (simp add: Let_def)
  qed
qed

text \<open>
  C3, as the code has it. For a period of at least one and a series of at least that
  length, the positions before \<open>period - 1\<close> hold the sentinel; position \<open>period - 1\<close>
  holds \<open>data[period-1]*k + sma*(1-k)\<close>, where \<open>sma\<close> is the simple average of the
  first \<open>period\<close> values (the average is the previous value of the first step, not the
  value stored); every later position \<open>i\<close> holds \<open>data[i]*k + ema[i-1]*(1-k)\<close>, with
  \<open>k = 2/(period+1)\<close>.
\<close>

theorem calculateEMA_recurrence:
  assumes "1 \<le> period" and "period \<le> length data"
  shows "calculateEMA data period ! (period - 1) =
           jadd (jmul (data ! (period - 1)) (smoothing period))
                (jmul (sma data period) (jsub (Fin 1) (smoothing period)))
    \<and> (\<forall>i. period \<le> i \<and> i < length data \<longrightarrow>
          calculateEMA data period ! i =
            jadd (jmul (data ! i) (smoothing period))
                 (jmul (calculateEMA data period ! (i - 1)) (jsub (Fin 1) (smoothing period))))
    \<and> (\<forall>i. i < period - 1 \<longrightarrow> calculateEMA data period ! i = NaN)"
proof -
  let ?k = "smoothing period"
  let ?run = "ema_run ?k (sma data period) (drop (period - 1) data)"
  have shape: "calculateEMA data period = replicate (period - 1) NaN @ ?run"
    using assms by (simp add: calculateEMA_shape)
  have ne: "drop (period - 1) data \<noteq> []" using assms by simp
  have a: "calculateEMA data period ! (period - 1) =
           jadd (jmul (data ! (period - 1)) ?k) (jmul (sma data period) (jsub (Fin 1) ?k))"
    using assms ema_run_0[OF ne, of ?k "sma data period"]
    by (simp add: shape nth_append)
  have b: "calculateEMA data period ! i =
            jadd (jmul (data ! i) ?k) (jmul (calculateEMA data period ! (i - 1)) (jsub (Fin 1) ?k))"
    if "period \<le> i" "i < length data" for i
  proof -
    define j where "j = i - period"
    have j: "i = period - 1 + Suc j" using that assms by (simp add: j_def)
    have lj: "Suc j < length (drop (period - 1) data)" using that assms j by simp
    have "calculateEMA data period ! i = ?run ! Suc j"
      using j by (simp add: shape nth_append)
    moreover have "calculateEMA data period ! (i - 1) = ?run ! j"
      using j by (simp add: shape nth_append)
    moreover have "drop (period - 1) data ! Suc j = data ! i"
      using j that assms by simp
    ultimately show ?thesis using ema_run_Suc[OF lj, of ?k "sma data period"] by simp
  qed
  have c: "calculateEMA data period ! i = NaN" if "i < period - 1" for i
    using that by (simp add: shape nth_append)
  from a b c show ?thesis by blast
qed

theorem calculateEMA_recurrence_witness:
  "(1::nat) \<le> 2 \<and> 2 \<le> length [Fin 1, Fin 2, Fin 3, Fin 5]
   \<and> smoothing 2 = Fin (2 / 3)
   \<and> sma [Fin 1, Fin 2, Fin 3, Fin 5] 2 = Fin (3 / 2)
   \<and> calculateEMA [Fin 1, Fin 2, Fin 3, Fin 5] 2 ! 0 = NaN
   \<and> calculateEMA [Fin 1, Fin 2, Fin 3, Fin 5] 2 ! 1 = Fin (11 / 6)
   \<and> calculateEMA [Fin 1, Fin 2, Fin 3, Fin 5] 2 ! 2
       = jadd (jmul (Fin 3) (Fin (2 / 3)))
              (jmul (calculateEMA [Fin 1, Fin 2, Fin 3, Fin 5] 2 ! 1) (Fin (1 / 3)))"
proof -
  let ?d = "[Fin 1, Fin 2, Fin 3, Fin 5]"
  have a: "(1::nat) \<le> 2" by simp
  have b: "2 \<le> length ?d" by simp
  have k: "smoothing 2 = Fin (2 / 3)" by (simp add: smoothing_def)
  have k1: "jsub (Fin 1) (Fin (2 / 3)) = Fin (1 / 3)" by (simp add: jsub_def)
  have m: "sma ?d 2 = Fin (3 / 2)" by (simp add: sma_def)
  note r = calculateEMA_recurrence[OF a b]
  from r have r0: "calculateEMA ?d 2 ! 0 = NaN" by simp
  from r have r1: "calculateEMA ?d 2 ! 1 = Fin (11 / 6)" by (simp add: k k1 m)
  from r have "calculateEMA ?d 2 ! 2 =
      jadd (jmul (?d ! 2) (smoothing 2))
           (jmul (calculateEMA ?d 2 ! (2 - 1)) (jsub (Fin 1) (smoothing 2)))"
    by (simp del: jadd.simps jmul.simps)
  then have r2: "calculateEMA ?d 2 ! 2
       = jadd (jmul (Fin 3) (Fin (2 / 3))) (jmul (calculateEMA ?d 2 ! 1) (Fin (1 / 3)))"
    by (simp add: k k1 del: jadd.simps jmul.simps)
  from a b k m r0 r1 r2 show ?thesis by blast
qed

text \<open>
  C3, as stated, fails on \<open>[1, 2, 3]\<close> with period 2: the simple average of the first
  two values is \<open>3/2\<close>, the value at position 1 is \<open>2 * 2/3 + 3/2 * 1/3 = 11/6\<close>.
\<close>

theorem calculateEMA_seed_counterexample:
  "(1::nat) \<le> 2 \<and> 2 \<le> length [Fin 1, Fin 2, Fin 3]
   \<and> calculateEMA [Fin 1, Fin 2, Fin 3] 2 ! (2 - 1) = Fin (11 / 6)
   \<and> sma [Fin 1, Fin 2, Fin 3] 2 = Fin (3 / 2)
   \<and> calculateEMA [Fin 1, Fin 2, Fin 3] 2 ! (2 - 1) \<noteq> sma [Fin 1, Fin 2, Fin 3] 2"
  by (simp add: calculateEMA_def ema_loop.simps smoothing_def sma_def jsub_def arr_get_def)

section \<open>Properties of \<open>calculateRSI\<close>\<close>

lemma length_arr_set_end: "length rsi = i \<Longrightarrow> arr_set rsi i v = rsi @ [v]"
  by (simp add: arr_set_def)

lemma length_arr_set_in: "i < length rsi \<Longrightarrow> length (arr_set rsi i v) = length rsi"
  by (simp add: arr_set_def)

lemma length_rsi_main_loop:
  "length rsi = i \<Longrightarrow> i \<le> length closes \<Longrightarrow>
   length (rsi_main_loop closes period i (rsi, avgGain, avgLoss)) = length closes"
proof (induction "length closes - i" arbitrary: i rsi avgGain avgLoss)
  case 0
  then show ?case by (subst rsi_main_loop.simps) simp
next
  case (Suc n)
  then have lt: "i < length closes" by simp
  show ?case
    using lt Suc.prems Suc.hyps(2)
    by (subst rsi_main_loop.simps)
       (simp add: Let_def length_arr_set_end Suc.hyps(1) del: jsub_def)
qed

lemma rsi_fill_loop_shape:
  "i \<le> period \<Longrightarrow> period \<le> length rsi \<Longrightarrow>
   rsi_fill_loop period i rsi = take i rsi @ replicate (period - i) NaN @ drop period rsi"
proof (induction "period - i" arbitrary: i rsi)
  case 0
  then show ?case by (subst rsi_fill_loop.simps) simp
next
  case (Suc n)
  then have lt: "i < period" by simp
  have il: "i < length rsi" using lt Suc.prems by simp
  have step: "rsi_fill_loop period i rsi = rsi_fill_loop period (Suc i) (rsi[i := NaN])"
    using lt il by (subst rsi_fill_loop.simps) (simp add: arr_set_def)
  have ih: "rsi_fill_loop period (Suc i) (rsi[i := NaN]) =
      take (Suc i) (rsi[i := NaN]) @ replicate (period - Suc i) NaN @ drop period (rsi[i := NaN])"
    using Suc lt by (intro Suc.hyps(1)) simp_all
  have t: "take (Suc i) (rsi[i := NaN]) = take i rsi @ [NaN]"
    using il by (simp add: take_Suc_conv_app_nth)
  have d: "drop period (rsi[i := NaN]) = drop period rsi"
    using lt by simp
  have n: "period - i = Suc (period - Suc i)" using lt by simp
  have r: "replicate (period - i) NaN = NaN # replicate (period - Suc i) NaN"
    by (simp only: n replicate_Suc)
  show ?case unfolding step ih t d r by simp
qed

lemma length_rsi_fill_loop:
  "period \<le> length rsi \<Longrightarrow> length (rsi_fill_loop period 0 rsi) = length rsi"
  by (simp add: rsi_fill_loop_shape)

lemma length_calculateRSI:
  "length (calculateRSI closes period) = (if length closes \<le> period then 0 else length closes)"
proof (cases "length closes \<le> period")
  case True
  then show ?thesis by (simp add: calculateRSI_def)
next
  case False
  have l0: "length (arr_set [] period v) = period + 1" for v
    by (simp add: arr_set_def)
  have m: "length (rsi_main_loop closes period (Suc period) (arr_set [] period v, a, b))
      = length closes" for v a b
    using False l0[of v] by (intro length_rsi_main_loop) simp_all
  show ?thesis using False m
    by (simp add: calculateRSI_def Let_def case_prod_beta length_rsi_fill_loop)
qed


lemma strictly_increasing_nth:
  "strictly_increasing xs \<Longrightarrow> Suc i < length xs \<Longrightarrow> jlt (xs ! i) (xs ! Suc i)"
proof (induction xs arbitrary: i rule: strictly_increasing.induct)
  case (1 x y xs)
  then show ?case by (cases i) simp_all
qed simp_all

lemma diff_pos: "jlt a b \<Longrightarrow> jgt (jsub b a) (Fin 0) \<and> \<not> jlt (jsub b a) (Fin 0)"
  by (cases a; cases b) (auto simp: jsub_def jgt_def)

lemma inc_diff:
  assumes "strictly_increasing closes" "1 \<le> i" "i < length closes"
  shows "jgt (jsub (arr_get closes (int i)) (arr_get closes (int i - 1))) (Fin 0)
       \<and> \<not> jlt (jsub (arr_get closes (int i)) (arr_get closes (int i - 1))) (Fin 0)"
proof -
  obtain j where j: "i = Suc j" using assms(2) by (cases i) auto
  have a: "arr_get closes (int i) = closes ! Suc j" using arr_get_nth[OF assms(3)] j by simp
  have "int i - 1 = int j" using j by simp
  then have b: "arr_get closes (int i - 1) = closes ! j"
    using assms(3) j by (simp add: arr_get_def)
  have "jlt (closes ! j) (closes ! Suc j)"
    using assms(1,3) j by (simp add: strictly_increasing_nth)
  then show ?thesis unfolding a b by (rule diff_pos)
qed

lemma seed_no_loss:
  "strictly_increasing closes \<Longrightarrow> period < length closes \<Longrightarrow> 1 \<le> i \<Longrightarrow>
   snd (rsi_seed_loop closes period i (g, l)) = l"
proof (induction "Suc period - i" arbitrary: i g)
  case 0
  then show ?case by (subst rsi_seed_loop.simps) simp
next
  case (Suc n)
  then have le: "i \<le> period" by simp
  then have il: "i < length closes" using Suc.prems by simp
  note d = inc_diff[OF Suc.prems(1) Suc.prems(3) il]
  let ?diff = "jsub (arr_get closes (int i)) (arr_get closes (int i - 1))"
  have step: "rsi_seed_loop closes period i (g, l)
      = rsi_seed_loop closes period (Suc i) (jadd g ?diff, l)"
    using le d by (subst rsi_seed_loop.simps) (simp add: Let_def)
  have "snd (rsi_seed_loop closes period (Suc i) (jadd g ?diff, l)) = l"
    using Suc by (intro Suc.hyps(1)) simp_all
  then show ?case by (simp only: step)
qed

lemma wilder_zero: "1 \<le> period \<Longrightarrow> wilder (Fin 0) period (Fin 0) = Fin 0"
  by (simp add: wilder_def jsub_def)

lemma rsi_saturates: "rsi_of_rs (relative_strength a (Fin 0)) = Fin 100"
  by (simp add: rsi_of_rs_def relative_strength_def jsub_def)

lemma main_loop_increasing:
  "strictly_increasing closes \<Longrightarrow> 1 \<le> period \<Longrightarrow> 1 \<le> i \<Longrightarrow> length rsi = i \<Longrightarrow>
   rsi_main_loop closes period i (rsi, avgGain, Fin 0)
     = rsi @ replicate (length closes - i) (Fin 100)"
proof (induction "length closes - i" arbitrary: i rsi avgGain)
  case 0
  then show ?case by (subst rsi_main_loop.simps) simp
next
  case (Suc n)
  then have lt: "i < length closes" by simp
  note d = inc_diff[OF Suc.prems(1) Suc.prems(3) lt]
  let ?diff = "jsub (arr_get closes (int i)) (arr_get closes (int i - 1))"
  let ?g = "wilder avgGain period ?diff"
  have step: "rsi_main_loop closes period i (rsi, avgGain, Fin 0)
      = rsi_main_loop closes period (Suc i) (rsi @ [Fin 100], ?g, Fin 0)"
    using lt d Suc.prems(4)
    by (subst rsi_main_loop.simps)
       (simp add: Let_def wilder_zero[OF Suc.prems(2)] rsi_saturates length_arr_set_end)
  have ih: "rsi_main_loop closes period (Suc i) (rsi @ [Fin 100], ?g, Fin 0)
      = (rsi @ [Fin 100]) @ replicate (length closes - Suc i) (Fin 100)"
    using Suc by (intro Suc.hyps(1)) simp_all
  have n: "length closes - i = Suc (length closes - Suc i)" using lt by simp
  have r: "replicate (length closes - i) (Fin 100)
      = Fin 100 # replicate (length closes - Suc i) (Fin 100)"
    by (simp only: n replicate_Suc)
  show ?case unfolding step ih r by simp
qed

lemma calculateRSI_increasing:
  assumes "strictly_increasing closes" "period < length closes" "1 \<le> period"
  shows "calculateRSI closes period
       = replicate period NaN @ replicate (length closes - period) (Fin 100)"
proof -
  obtain g l where gl: "rsi_seed_loop closes period 1 (Fin 0, Fin 0) = (g, l)" by fastforce
  have "l = Fin 0" using seed_no_loss[OF assms(1,2), of 1 "Fin 0" "Fin 0"] gl by simp
  with gl have gl0: "rsi_seed_loop closes period 1 (Fin 0, Fin 0) = (g, Fin 0)" by simp
  have z: "jdiv (Fin 0) (Fin (of_nat period)) = Fin 0" using assms(3) by simp
  let ?a = "jdiv g (Fin (of_nat period))"
  have init: "arr_set [] period (Fin 100) = replicate period Undefined @ [Fin 100]"
    by (simp add: arr_set_def)
  have m: "rsi_main_loop closes period (period + 1) (replicate period Undefined @ [Fin 100], ?a, Fin 0)
      = (replicate period Undefined @ [Fin 100]) @ replicate (length closes - (period + 1)) (Fin 100)"
    using assms by (intro main_loop_increasing) simp_all
  have n: "length closes - period = Suc (length closes - (period + 1))" using assms(2) by simp
  have r: "replicate (length closes - period) (Fin 100)
      = Fin 100 # replicate (length closes - (period + 1)) (Fin 100)"
    by (simp only: n replicate_Suc)
  have c: "calculateRSI closes period = rsi_fill_loop period 0
      ((replicate period Undefined @ [Fin 100]) @ replicate (length closes - (period + 1)) (Fin 100))"
    using assms(2) unfolding calculateRSI_def gl0
    by (simp only: Let_def prod.case z rsi_saturates init m) simp
  show ?thesis unfolding c r by (subst rsi_fill_loop_shape) simp_all
qed

lemma wilder_nan: "wilder NaN period x = NaN"
  by (simp add: wilder_def)

lemma rsi_nan: "rsi_of_rs (relative_strength a NaN) = NaN"
  by (cases a) (simp_all add: rsi_of_rs_def relative_strength_def jsub_def)

lemma main_loop_nan:
  "length rsi = i \<Longrightarrow>
   rsi_main_loop closes period i (rsi, avgGain, NaN) = rsi @ replicate (length closes - i) NaN"
proof (induction "length closes - i" arbitrary: i rsi avgGain)
  case 0
  then show ?case by (subst rsi_main_loop.simps) simp
next
  case (Suc n)
  then have lt: "i < length closes" by simp
  let ?diff = "jsub (arr_get closes (int i)) (arr_get closes (int i - 1))"
  define g where "g = wilder avgGain period (if jgt ?diff (Fin 0) then ?diff else Fin 0)"
  have step: "rsi_main_loop closes period i (rsi, avgGain, NaN)
      = rsi_main_loop closes period (Suc i) (rsi @ [NaN], g, NaN)"
    using lt Suc.prems unfolding g_def
    by (subst rsi_main_loop.simps)
       (simp add: Let_def wilder_nan rsi_nan length_arr_set_end)
  have ih: "rsi_main_loop closes period (Suc i) (rsi @ [NaN], g, NaN)
      = (rsi @ [NaN]) @ replicate (length closes - Suc i) NaN"
    using Suc by (intro Suc.hyps(1)) simp_all
  have n: "length closes - i = Suc (length closes - Suc i)" using lt by simp
  have r: "replicate (length closes - i) NaN = NaN # replicate (length closes - Suc i) NaN"
    by (simp only: n replicate_Suc)
  show ?case unfolding step ih r by simp
qed

lemma calculateRSI_period_0:
  assumes "0 < length closes"
  shows "calculateRSI closes 0 = replicate (length closes) NaN"
proof -
  have s: "rsi_seed_loop closes 0 1 (Fin 0, Fin 0) = (Fin 0, Fin 0)"
    by (subst rsi_seed_loop.simps) simp
  have i: "arr_set [] 0 NaN = [NaN]" by (simp add: arr_set_def)
  have m: "rsi_main_loop closes 0 (0 + 1) ([NaN], NaN, NaN)
      = [NaN] @ replicate (length closes - (0 + 1)) NaN"
    by (intro main_loop_nan) simp
  have f: "rsi_fill_loop 0 0 xs = xs" for xs by (subst rsi_fill_loop.simps) simp
  have n: "length closes = Suc (length closes - (0 + 1))" using assms by simp
  have r: "replicate (length closes) NaN = NaN # replicate (length closes - (0 + 1)) NaN"
    by (subst n) (simp only: replicate_Suc)
  have "calculateRSI closes 0 = [NaN] @ replicate (length closes - (0 + 1)) NaN"
    using assms unfolding calculateRSI_def s
    by (simp add: Let_def rsi_nan i f m[simplified] del: replicate_Suc)
  then show ?thesis unfolding r by simp
qed

text \<open>
  C2, as the code has it. \<open>calculateEMA\<close> with a period of at least one returns a series
  as long as its input, whatever the input's length. \<open>calculateRSI\<close> returns a series as
  long as its input when the input is longer than the period, and the empty series when
  the input's length is at most the period.
\<close>

theorem indicator_series_lengths:
  "(1 \<le> period \<longrightarrow> length (calculateEMA data period) = length data)
   \<and> (p < length closes \<longrightarrow> length (calculateRSI closes p) = length closes)
   \<and> (length cs \<le> q \<longrightarrow> calculateRSI cs q = [])"
  by (simp add: length_calculateEMA length_calculateRSI) (simp add: calculateRSI_def)

theorem indicator_series_lengths_witness:
  "length (calculateEMA [Fin 1, Fin 2, Fin 3] 5) = 3
   \<and> length (calculateRSI [Fin 1, Fin 2, Fin 3] 2) = 3
   \<and> calculateRSI [Fin 1, Fin 2, Fin 3] 3 = []"
  using indicator_series_lengths [of 5 "[Fin 1, Fin 2, Fin 3]" 2 "[Fin 1, Fin 2, Fin 3]"
      "[Fin 1, Fin 2, Fin 3]" 3]
  by simp

text \<open>
  C2, as stated, fails for \<open>calculateRSI\<close> on an input whose length is at most the period:
  three closes with period 3 give the empty series.
\<close>

theorem calculateRSI_short_input_counterexample:
  "length [Fin 1, Fin 2, Fin 3] \<le> 3
   \<and> length (calculateRSI [Fin 1, Fin 2, Fin 3] 3) = 0
   \<and> length (calculateRSI [Fin 1, Fin 2, Fin 3] 3) \<noteq> length [Fin 1, Fin 2, Fin 3]"
  by (simp add: calculateRSI_def)

text \<open>
  C8. On a strictly increasing series longer than the period the result has the input's
  length and every position that is not the sentinel holds 100; for a period of at least
  one these are exactly the positions from \<open>period\<close> on. (The average loss is 0 at
  every step, so RS is \<open>Infinity\<close> and \<open>100 - 100/(1+RS)\<close> is 100. With period 0 both
  averages are \<open>0/0\<close> and every position is the sentinel.)
\<close>

theorem calculateRSI_strictly_increasing:
  assumes "strictly_increasing closes" and "period < length closes"
  shows "length (calculateRSI closes period) = length closes
    \<and> (\<forall>i<length closes. \<not> isNaN (calculateRSI closes period ! i)
           \<longrightarrow> calculateRSI closes period ! i = Fin 100)
    \<and> (1 \<le> period \<longrightarrow>
         (\<forall>i. period \<le> i \<and> i < length closes \<longrightarrow> calculateRSI closes period ! i = Fin 100))"
proof (cases "period = 0")
  case True
  with assms(2) show ?thesis by (simp add: calculateRSI_period_0)
next
  case False
  then have p: "1 \<le> period" by simp
  note s = calculateRSI_increasing[OF assms p]
  show ?thesis using assms(2) by (auto simp: s nth_append)
qed

theorem calculateRSI_strictly_increasing_witness:
  "strictly_increasing [Fin 1, Fin 2, Fin 4, Fin 7, Fin 8]
   \<and> 2 < length [Fin 1, Fin 2, Fin 4, Fin 7, Fin 8]
   \<and> length (calculateRSI [Fin 1, Fin 2, Fin 4, Fin 7, Fin 8] 2) = 5
   \<and> calculateRSI [Fin 1, Fin 2, Fin 4, Fin 7, Fin 8] 2 ! 2 = Fin 100
   \<and> calculateRSI [Fin 1, Fin 2, Fin 4, Fin 7, Fin 8] 2 ! 3 = Fin 100
   \<and> calculateRSI [Fin 1, Fin 2, Fin 4, Fin 7, Fin 8] 2 ! 4 = Fin 100"
proof -
  let ?c = "[Fin 1, Fin 2, Fin 4, Fin 7, Fin 8]"
  have a: "strictly_increasing ?c" by simp
  have b: "2 < length ?c" by simp
  from calculateRSI_strictly_increasing[OF a b] a b show ?thesis by simp
qed

section \<open>Properties of \<open>getSessions\<close>\<close>

lemma div_bounds: "(0::int) < c \<Longrightarrow> c * (a div c) \<le> a \<and> a < c * (a div c) + c"
  by (metis add.commute mult.commute div_mult_mod_eq le_add_same_cancel2 pos_mod_sign
      pos_mod_bound add_strict_left_mono)

lemma DayFromYear_linear:
  "400 * DayFromYear z =
     146000 * z - 287620000 + 400 * ((z - 1969) div 4) - 400 * ((z - 1901) div 100)
       + 400 * ((z - 1601) div 400)"
  by (simp add: DayFromYear_def algebra_simps)

lemma DayFromYear_upper: "400 * DayFromYear z \<le> 146097 * z - 287810497"
proof -
  define q4 where "q4 = (z - 1969) div 4"
  define q100 where "q100 = (z - 1901) div 100"
  define q400 where "q400 = (z - 1601) div 400"
  have a: "4 * q4 \<le> z - 1969" using div_bounds[of 4 "z - 1969"] by (simp add: q4_def)
  have b: "z - 1901 < 100 * q100 + 100" using div_bounds[of 100 "z - 1901"] by (simp add: q100_def)
  have c: "400 * q400 \<le> z - 1601" using div_bounds[of 400 "z - 1601"] by (simp add: q400_def)
  have "400 * DayFromYear z = 146000 * z - 287620000 + 400 * q4 - 400 * q100 + 400 * q400"
    unfolding q4_def q100_def q400_def by (rule DayFromYear_linear)
  with a b c show ?thesis by linarith
qed

lemma DayFromYear_lower: "146097 * z - 287811697 \<le> 400 * DayFromYear z"
proof -
  define q4 where "q4 = (z - 1969) div 4"
  define q100 where "q100 = (z - 1901) div 100"
  define q400 where "q400 = (z - 1601) div 400"
  have a: "z - 1969 < 4 * q4 + 4" using div_bounds[of 4 "z - 1969"] by (simp add: q4_def)
  have b: "100 * q100 \<le> z - 1901" using div_bounds[of 100 "z - 1901"] by (simp add: q100_def)
  have c: "z - 1601 < 400 * q400 + 400" using div_bounds[of 400 "z - 1601"] by (simp add: q400_def)
  have "400 * DayFromYear z = 146000 * z - 287620000 + 400 * q4 - 400 * q100 + 400 * q400"
    unfolding q4_def q100_def q400_def by (rule DayFromYear_linear)
  with a b c show ?thesis by linarith
qed

lemma year_bounds:
  "DayFromYear (YearFromTime t) \<le> Day t \<and> Day t < DayFromYear (YearFromTime t + 1)"
proof -
  define d where "d = Day t"
  define k where "k = (d * 400) div 146097"
  define y where "y = 1970 + k"
  have k: "146097 * k \<le> 400 * d" "400 * d < 146097 * k + 146097"
    using div_bounds[of 146097 "d * 400"] by (simp_all add: k_def mult.commute)
  have yk: "146097 * y = 146097 * k + 287811090" by (simp add: y_def)
  have lo: "DayFromYear (y - 1) \<le> d"
  proof -
    define z where "z = y - 1"
    have "146097 * z = 146097 * y - 146097" by (simp add: z_def algebra_simps)
    with DayFromYear_upper[of z] k yk have "DayFromYear z \<le> d" by linarith
    then show ?thesis by (simp add: z_def)
  qed
  have hi: "d < DayFromYear (y + 2)"
  proof -
    define z where "z = y + 2"
    have "146097 * z = 146097 * y + 292194" by (simp add: z_def algebra_simps)
    with DayFromYear_lower[of z] k yk have "d < DayFromYear z" by linarith
    then show ?thesis by (simp add: z_def)
  qed
  have e: "YearFromTime t =
     (if DayFromYear (y + 1) \<le> d then y + 1
      else if DayFromYear y \<le> d then y else y - 1)"
    by (simp add: YearFromTime_def Let_def d_def k_def y_def)
  have s: "y + 1 + 1 = y + 2" "y - 1 + 1 = y" by simp_all
  show ?thesis unfolding e d_def[symmetric] using lo hi by (auto simp: s)
qed

lemma MonthFromTime_range: "0 \<le> MonthFromTime t \<and> MonthFromTime t \<le> 11"
  by (simp add: MonthFromTime_def Let_def)

lemma MakeDay_roundtrip:
  "MakeDay (YearFromTime t) (MonthFromTime t) (DateFromTime t) = Day t"
proof -
  have m: "MonthFromTime t div 12 = 0" "MonthFromTime t mod 12 = MonthFromTime t"
    using MonthFromTime_range[of t] by simp_all
  show ?thesis
    by (simp add: MakeDay_def Let_def m DateFromTime_def DayWithinYear_def)
qed

lemma YearFromTime_after_epoch:
  assumes "0 \<le> t"
  shows "1970 \<le> YearFromTime t"
proof (rule ccontr)
  define z where "z = YearFromTime t + 1"
  assume "\<not> 1970 \<le> YearFromTime t"
  then have y: "z \<le> 1970" by (simp add: z_def)
  have d: "0 \<le> Day t" using assms by (simp add: Day_def msPerDay_def pos_imp_zdiv_nonneg_iff)
  have lt: "Day t < DayFromYear z" using year_bounds by (simp add: z_def)
  show False
  proof (cases "z = 1970")
    case True
    with lt d show False by (simp add: DayFromYear_def)
  next
    case False
    with y have "z \<le> 1969" by simp
    with DayFromYear_upper[of z] lt d show False by linarith
  qed
qed


lemma MakeDay_shift: "MakeDay y m (d + k) = MakeDay y m d + k"
  by (simp add: MakeDay_def Let_def)

lemma Day_times: "Day t * msPerDay = t - t mod 86400000"
  by (simp add: Day_def msPerDay_def minus_mod_eq_div_mult)

lemma getUTCMillisFor1d_now:
  assumes "0 \<le> now"
  shows "getUTCMillisFor1d (YearFromTime now) (MonthFromTime now) (DateFromTime now + k) h mn
       = TimeClip (now - now mod 86400000 + k * 86400000 + (h - 8) * 3600000 + mn * 60000)"
proof -
  have y: "(if 0 \<le> YearFromTime now \<and> YearFromTime now \<le> 99
            then 1900 + YearFromTime now else YearFromTime now) = YearFromTime now"
    using YearFromTime_after_epoch[OF assms] by simp
  have "MakeDay (YearFromTime now) (MonthFromTime now) (DateFromTime now + k) = Day now + k"
    by (simp only: MakeDay_shift MakeDay_roundtrip)
  then have "MakeDate (MakeDay (YearFromTime now) (MonthFromTime now) (DateFromTime now + k))
        (MakeTime (h - 8) mn 0 0)
      = Day now * msPerDay + k * 86400000 + (h - 8) * 3600000 + mn * 60000"
    by (simp add: MakeDate_def MakeTime_def algebra_simps msPerDay_def)
  then show ?thesis
    unfolding getUTCMillisFor1d_def Date_UTC_def Let_def y by (simp add: Day_times)
qed

text \<open>
  C9, as the code has it. \<open>year\<close>, \<open>month\<close> and \<open>date\<close> are those of \<open>now\<close> in UTC, so
  "today 08:00" is \<open>T\<close>, the start of the UTC day of \<open>now\<close>, which is the latest 08:00
  boundary of the UTC+8 clock at or before \<open>now\<close>. For every clock reading from the epoch
  on, the test \<open>now >= today8AM_UTC\<close> holds, the session is \<open>[T, T + 23h45]\<close>, and the
  previous session is \<open>[T - 24h, T - 15min]\<close>: it never coincides with the session.
\<close>

theorem getSessions_1d_previous_session:
  assumes "0 \<le> now" and "now < 8640000000000000"
  shows "sessionStart (getSessions timeframe now (Some TF_1d)) = Fin (of_int (now - now mod 86400000))
    \<and> sessionEnd (getSessions timeframe now (Some TF_1d))
        = Fin (of_int (now - now mod 86400000 + 85500000))
    \<and> prevSessionStart (getSessions timeframe now (Some TF_1d))
        = Fin (of_int (now - now mod 86400000 - 86400000))
    \<and> prevSessionEnd (getSessions timeframe now (Some TF_1d))
        = Fin (of_int (now - now mod 86400000 - 900000))
    \<and> prevSessionStart (getSessions timeframe now (Some TF_1d))
        \<noteq> sessionStart (getSessions timeframe now (Some TF_1d))"
proof -
  define T where "T = now - now mod 86400000"
  have m: "0 \<le> now mod 86400000" "now mod 86400000 < 86400000" by simp_all
  have "now mod 86400000 \<le> now" using assms(1) by (rule zmod_le_nonneg_dividend)
  with m have T0: "0 \<le> T" "T \<le> now" unfolding T_def by linarith+
  have dv: "86400000 dvd T" unfolding T_def by (simp add: minus_mod_eq_mult_div)
  have "T < 8640000000000000" using T0 assms by simp
  moreover have "(86400000::int) dvd 8640000000000000" by simp
  ultimately have T1: "T + 86400000 \<le> 8640000000000000"
    using dv by (elim dvdE) auto
  note g = getUTCMillisFor1d_now[OF assms(1), folded T_def]
  have t8: "getUTCMillisFor1d (YearFromTime now) (MonthFromTime now) (DateFromTime now) 8 0
      = Fin (of_int T)"
    using g[of 0 8 0] T0 assms by (simp add: TimeClip_def)
  have t745: "getUTCMillisFor1d (YearFromTime now) (MonthFromTime now) (DateFromTime now + 1) 7 45
      = Fin (of_int (T + 85500000))"
    using g[of 1 7 45] T0 T1 by (simp add: TimeClip_def)
  have y8: "getUTCMillisFor1d (YearFromTime now) (MonthFromTime now) (DateFromTime now - 1) 8 0
      = Fin (of_int (T - 86400000))"
    using g[of "-1" 8 0] T0 assms by (simp add: TimeClip_def)
  have p745: "getUTCMillisFor1d (YearFromTime now) (MonthFromTime now) (DateFromTime now) 7 45
      = Fin (of_int (T - 900000))"
    using g[of 0 7 45] T0 assms by (simp add: TimeClip_def)
  have ge: "jge (Fin (of_int now)) (Fin (of_int T))"
    using T0 by (simp add: jge_def)
  have ne: "Fin (of_int (T - 86400000)) \<noteq> Fin (of_int T)" by simp
  show ?thesis
    unfolding T_def[symmetric] getSessions_def
    by (simp only: Let_def option.case if_True t8 t745 y8 p745 ge prod.case sessions.simps)
       (use ne in simp)
qed

theorem getSessions_1d_previous_session_witness:
  "sessionStart (getSessions TF_1d 1704139200000 (Some TF_1d)) = Fin 1704067200000
   \<and> sessionEnd (getSessions TF_1d 1704139200000 (Some TF_1d)) = Fin 1704152700000
   \<and> prevSessionStart (getSessions TF_1d 1704139200000 (Some TF_1d)) = Fin 1703980800000
   \<and> prevSessionEnd (getSessions TF_1d 1704139200000 (Some TF_1d)) = Fin 1704066300000"
  using getSessions_1d_previous_session [of 1704139200000 TF_1d] by simp

text \<open>
  C9, as stated, fails at 2024-01-01 20:00 UTC, which is 04:00 of 2 January on the UTC+8
  clock, before that day's 08:00. The specification's previous session, yesterday 08:00
  to today 07:45 on that clock, is 1 January 08:00 to 2 January 07:45; this is the
  session the code returns as the current one. The previous session of the code starts
  and ends a day earlier, and does not coincide with the current session.
\<close>

theorem getSessions_before_8am_counterexample:
  "(1704139200000 + 8 * 3600000) mod msPerDay < 8 * 3600000
   \<and> prevSessionStart (getSessions TF_1d 1704139200000 (Some TF_1d)) = Fin 1703980800000
   \<and> prevSessionEnd (getSessions TF_1d 1704139200000 (Some TF_1d)) = Fin 1704066300000
   \<and> spec_prev_session 1704139200000 = (Fin 1704067200000, Fin 1704152700000)
   \<and> sessionStart (getSessions TF_1d 1704139200000 (Some TF_1d)) = Fin 1704067200000
   \<and> sessionEnd (getSessions TF_1d 1704139200000 (Some TF_1d)) = Fin 1704152700000
   \<and> prevSessionStart (getSessions TF_1d 1704139200000 (Some TF_1d))
       \<noteq> fst (spec_prev_session 1704139200000)
   \<and> prevSessionEnd (getSessions TF_1d 1704139200000 (Some TF_1d))
       \<noteq> snd (spec_prev_session 1704139200000)
   \<and> prevSessionStart (getSessions TF_1d 1704139200000 (Some TF_1d))
       \<noteq> sessionStart (getSessions TF_1d 1704139200000 (Some TF_1d))"
  by code_simp

section \<open>Properties of \<open>fetchWithRetry\<close>\<close>

lemma try_body_rate_limited:
  "rate_limited outcome \<Longrightarrow> \<exists>w. try_body outcome delay i = Continue w"
  by (cases outcome) (auto simp: rate_limited_def try_body_def)

lemma fetch_loop_rate_limited:
  "(\<forall>k. i \<le> k \<and> k < retries \<longrightarrow> rate_limited (server k)) \<Longrightarrow>
   \<exists>waits. length waits = retries - i
     \<and> fetch_loop server retries delay i trace
         = (Inr JNull, trace @ concat (map (\<lambda>w. [GET, Sleep w]) waits))"
proof (induction "retries - i" arbitrary: i trace)
  case 0
  then have "fetch_loop server retries delay i trace = (Inr JNull, trace)"
    by (subst fetch_loop.simps) simp
  with 0 show ?case by simp
next
  case (Suc n)
  then have lt: "i < retries" by simp
  with Suc.prems obtain w where w: "try_body (server i) delay i = Continue w"
    using try_body_rate_limited by blast
  have step: "fetch_loop server retries delay i trace
      = fetch_loop server retries delay (Suc i) (trace @ [GET, Sleep w])"
    using lt w by (subst fetch_loop.simps) simp
  have "\<exists>waits. length waits = retries - Suc i
     \<and> fetch_loop server retries delay (Suc i) (trace @ [GET, Sleep w])
         = (Inr JNull, (trace @ [GET, Sleep w]) @ concat (map (\<lambda>w. [GET, Sleep w]) waits))"
    using Suc by (intro Suc.hyps(1)) simp_all
  then obtain waits where ws: "length waits = retries - Suc i"
    "fetch_loop server retries delay (Suc i) (trace @ [GET, Sleep w])
         = (Inr JNull, (trace @ [GET, Sleep w]) @ concat (map (\<lambda>w. [GET, Sleep w]) waits))"
    by blast
  have "length (w # waits) = retries - i" using ws(1) lt by simp
  moreover have "fetch_loop server retries delay i trace
      = (Inr JNull, trace @ concat (map (\<lambda>w. [GET, Sleep w]) (w # waits)))"
    unfolding step ws(2) by simp
  ultimately show ?case by blast
qed

lemma count_gets_waits: "count_gets (concat (map (\<lambda>w. [GET, Sleep w]) waits)) = length waits"
  by (induction waits) (simp_all add: count_gets_def)

lemma count_sleeps_waits: "count_sleeps (concat (map (\<lambda>w. [GET, Sleep w]) waits)) = length waits"
  by (induction waits) (simp_all add: count_sleeps_def)

text \<open>
  C5, as the code has it. When every GET is answered with status 429 or 418, the call
  sleeps after every response, the last one included, but \<open>continue\<close> still advances
  the loop counter: it performs exactly \<open>retries\<close> GETs and \<open>retries\<close> sleeps, each GET
  followed by its sleep, and returns \<open>null\<close>. The number of GETs never exceeds the budget.
\<close>

theorem fetchWithRetry_rate_limited:
  assumes "\<forall>k<retries. rate_limited (server k)"
  shows "(\<exists>waits. length waits = retries
            \<and> snd (fetchWithRetry server retries delay)
                = concat (map (\<lambda>w. [GET, Sleep w]) waits))
    \<and> fst (fetchWithRetry server retries delay) = Inr JNull
    \<and> count_gets (snd (fetchWithRetry server retries delay)) = retries
    \<and> count_sleeps (snd (fetchWithRetry server retries delay)) = retries"
proof -
  from assms have "\<forall>k. 0 \<le> k \<and> k < retries \<longrightarrow> rate_limited (server k)" by simp
  from fetch_loop_rate_limited[OF this, of delay "[]"]
  obtain waits where w: "length waits = retries"
    "fetchWithRetry server retries delay = (Inr JNull, concat (map (\<lambda>w. [GET, Sleep w]) waits))"
    by (auto simp: fetchWithRetry_def)
  show ?thesis unfolding w(2) using w(1) by (auto simp: count_gets_waits count_sleeps_waits)
qed

theorem fetchWithRetry_rate_limited_witness:
  "rate_limited (always_429 0) \<and> rate_limited (always_429 4)
   \<and> fst (fetchWithRetry always_429 5 (Fin 1000)) = Inr JNull
   \<and> count_gets (snd (fetchWithRetry always_429 5 (Fin 1000))) = 5
   \<and> count_sleeps (snd (fetchWithRetry always_429 5 (Fin 1000))) = 5"
proof -
  have a: "\<forall>k<5. rate_limited (always_429 k)"
    by (simp add: rate_limited_def always_429_def too_many_requests_def)
  from fetchWithRetry_rate_limited[OF a, of "Fin 1000"] a show ?thesis by simp
qed

text \<open>
  C5, as stated, fails with the default budget of 5 against a provider that always answers
  429: five GETs are performed, not more.
\<close>

theorem fetchWithRetry_budget_counterexample:
  "rate_limited (always_429 0)
   \<and> count_gets (snd (fetchWithRetry always_429 5 (Fin 1000))) = 5
   \<and> \<not> 5 < count_gets (snd (fetchWithRetry always_429 5 (Fin 1000)))
   \<and> fetchWithRetry always_429 5 (Fin 1000) =
      (Inr JNull, [GET, Sleep (Fin 1000), GET, Sleep (Fin 2000), GET, Sleep (Fin 4000), GET,
       Sleep (Fin 8000), GET, Sleep (Fin 16000)])"
  by code_simp

text \<open>
  C7, as the code has it. When the first GET is answered with a non-success status other
  than 429 and 418, and the error body signals an invalid symbol (code -1121, or one of the
  two messages) and does not carry the ban code -1003, the call returns \<open>null\<close> after that
  one GET, without any sleep.
\<close>

theorem fetchWithRetry_invalid_symbol:
  assumes "0 < retries" and "server 0 = Resolves r" and "\<not> ok r"
    and "status r \<noteq> 429" and "status r \<noteq> 418"
    and "body r = Inr errorBody" and "invalid_symbol errorBody"
    and "json_code errorBody \<noteq> Some (- 1003)"
  shows "fetchWithRetry server retries delay = (Inr JNull, [GET])"
proof -
  have n: "errorBody \<noteq> JNull" using assms(7) by (auto simp: invalid_symbol_def)
  have "try_body (server 0) delay 0 = Return JNull"
    using assms n by (cases errorBody) (auto simp: try_body_def invalid_symbol_def)
  then show ?thesis using assms(1)
    unfolding fetchWithRetry_def by (subst fetch_loop.simps) simp
qed

theorem fetchWithRetry_invalid_symbol_witness:
  "\<not> ok bad_symbol_400 \<and> invalid_symbol (JError (Some (- 1121)) (Some ''Invalid symbol.''))
   \<and> fetchWithRetry always_bad_symbol_400 5 (Fin 1000) = (Inr JNull, [GET])"
  using fetchWithRetry_invalid_symbol [of 5 always_bad_symbol_400 bad_symbol_400
      "JError (Some (- 1121)) (Some ''Invalid symbol.'')" "Fin 1000"]
  by (simp add: always_bad_symbol_400_def bad_symbol_400_def ok_def invalid_symbol_def)

text \<open>
  C7, as stated, fails in two ways. A response with status 429 is handled as a rate limit
  before its body is read, and a body with the ban code -1003 is handled as a ban before
  its message is compared: with an invalid-symbol body in either, the call sleeps and
  tries again, five times with the default budget.
\<close>

theorem fetchWithRetry_invalid_symbol_counterexample:
  "always_bad_symbol_429 0 = Resolves bad_symbol_429
   \<and> \<not> ok bad_symbol_429
   \<and> body bad_symbol_429 = Inr (JError (Some (- 1121)) (Some ''Invalid symbol.''))
   \<and> invalid_symbol (JError (Some (- 1121)) (Some ''Invalid symbol.''))
   \<and> fetchWithRetry always_bad_symbol_429 5 (Fin 1000) =
      (Inr JNull, [GET, Sleep (Fin 1000), GET, Sleep (Fin 2000), GET, Sleep (Fin 4000), GET,
       Sleep (Fin 8000), GET, Sleep (Fin 16000)])
   \<and> fetchWithRetry always_bad_symbol_429 5 (Fin 1000) \<noteq> (Inr JNull, [GET])
   \<and> always_banned_bad_symbol_400 0 = Resolves banned_bad_symbol_400
   \<and> \<not> ok banned_bad_symbol_400
   \<and> body banned_bad_symbol_400 = Inr (JError (Some (- 1003)) (Some ''Invalid symbol.''))
   \<and> invalid_symbol (JError (Some (- 1003)) (Some ''Invalid symbol.''))
   \<and> fetchWithRetry always_banned_bad_symbol_400 5 (Fin 1000) =
      (Inr JNull, [GET, Sleep (Fin 1000), GET, Sleep (Fin 2000), GET, Sleep (Fin 4000), GET,
       Sleep (Fin 8000), GET, Sleep (Fin 16000)])"
  by code_simp

section \<open>Properties of \<open>processBatch\<close>\<close>

lemma promise_all_rejects: "Inl error \<in> set ps \<Longrightarrow> \<exists>e. promise_all ps = Inl e"
proof (induction ps)
  case Nil
  then show ?case by simp
next
  case (Cons p ps)
  show ?case
  proof (cases p)
    case (Inl e)
    then show ?thesis by simp
  next
    case (Inr v)
    with Cons obtain e where "promise_all ps = Inl e" by auto
    with Inr show ?thesis by simp
  qed
qed

lemma run_batch_one_rejection:
  assumes "symbol \<in> set (take BATCH_SIZE (drop (st_currentIndex st) (st_symbols st)))"
    and "fetchAndAnalyze net timeframe now symbol timeframe = Inl error"
  shows "\<exists>e. run_batch net timeframe now clock st = (Some e, st)"
proof -
  let ?ps = "map (\<lambda>symbol. fetchAndAnalyze net timeframe now symbol timeframe)
               (take BATCH_SIZE (drop (st_currentIndex st) (st_symbols st)))"
  have "Inl error \<in> set ?ps" using assms by force
  then obtain e where "promise_all ?ps = Inl e" using promise_all_rejects by blast
  then show ?thesis by (simp add: run_batch_def)
qed

text \<open>
  C6 asks that a symbol whose fetch fails for good be dropped, the other analyses of the
  batch be appended and the pass go on. The code does not do so. In the batch of
  \<open>AAAUSDT\<close> and \<open>BBBUSDT\<close>, the five GETs of the candles of \<open>AAAUSDT\<close> fail,
  \<open>fetchWithRetry\<close> throws the last error again, \<open>fetchAndAnalyze\<close> rejects, and so do
  \<open>Promise.all\<close> and \<open>processBatch\<close>: the analysis of \<open>BBBUSDT\<close>, which succeeds, is not
  appended, the cursor stays at 0, no further batch is scheduled and the loading flag
  stays set.
\<close>

theorem processBatch_aborts_on_one_failure:
  "fst (fetchWithRetry (one_failing_net (klines_url ''AAAUSDT'' ''1d'')) 5 (Fin 1000))
     = Inl ''Failed to fetch''
   \<and> fetchAndAnalyze one_failing_net TF_1d 1704139200000 ''AAAUSDT'' TF_1d
       = Inl ''Failed to fetch''
   \<and> map_sum id (map_option a_symbol)
        (fetchAndAnalyze one_failing_net TF_1d 1704139200000 ''BBBUSDT'' TF_1d)
       = Inr (Some ''BBBUSDT'')
   \<and> processBatch one_failing_net TF_1d 1704139200000 ''10:00:00'' two_symbols
       = (Some ''Failed to fetch'', two_symbols)
   \<and> st_signals (snd (processBatch one_failing_net TF_1d 1704139200000 ''10:00:00'' two_symbols))
       = []
   \<and> st_currentIndex
        (snd (processBatch one_failing_net TF_1d 1704139200000 ''10:00:00'' two_symbols)) = 0
   \<and> \<not> st_nextBatch
          (snd (processBatch one_failing_net TF_1d 1704139200000 ''10:00:00'' two_symbols))
   \<and> st_loading
        (snd (processBatch one_failing_net TF_1d 1704139200000 ''10:00:00'' two_symbols))"
  by code_simp

end
